theory Spec2Isabelle
  imports Complex_Main "HOL-Library.AList"
begin

section \<open>Errors and results\<close>

text \<open>
  The exceptions the two source files (and the library calls they make) can raise.
  A computation that may raise returns \<open>error + 'a\<close>, with \<open>Inl\<close> for the exception.
  \<open>UnknownHyperparams d\<close> is the \<open>ValueError('Unknown hyperparams: {}'.format(values))\<close>
  of \<open>HyperParams.update\<close>; its payload is the dictionary that is formatted into the message.
\<close>

datatype error =
    AssertionError
  | ValueError
  | UnknownHyperparams "(string \<times> string) list"
  | KeyError
  | AttributeError
  | IndexError
  | RuntimeError

definition bnd :: "error + 'a \<Rightarrow> ('a \<Rightarrow> error + 'b) \<Rightarrow> error + 'b" where
  "bnd m f = (case m of Inl e \<Rightarrow> Inl e | Inr x \<Rightarrow> f x)"

section \<open>keep\_specified\_classes.py\<close>

text \<open>
  A row of the label table read by \<open>pd.read_csv\<close>: the three columns the script reads.
\<close>

record label_row =
  ImageId :: string
  ClassType :: int
  MultipolygonWKT :: string

text \<open>A cell of a data frame; \<open>NaN\<close> is what pandas stores for a key a row lacks.\<close>

datatype cell = IntCell int | StrCell string | NaN

type_synonym pyrow = "(string \<times> cell) list"

text \<open>The loop of lines 5 to 15: \<open>new_df\<close> is the accumulator, appended to in place.\<close>

fun remap_rows :: "label_row list \<Rightarrow> pyrow list \<Rightarrow> pyrow list" where
  "remap_rows [] new_df = new_df"
| "remap_rows (row # rows) new_df =
     (if ClassType row = 6 then
        remap_rows rows (new_df @ [[(''ImageId'', StrCell (ImageId row)),
                                    (''ClassType'', IntCell 1),
                                    (''MultipolygonWKT'', StrCell (MultipolygonWKT row))]])
      else if ClassType row = 7 then
        remap_rows rows (new_df @ [[(''ImageId'', StrCell (ImageId row)),
                                    (''ClassType'', IntCell 2),
                                    (''MultipolygonWKT'', StrCell (MultipolygonWKT row))]])
      else remap_rows rows new_df)"

record dataframe =
  columns :: "string list"
  records :: "cell list list"

text \<open>
  \<open>pd.DataFrame(list of dicts)\<close>: the columns are the keys of the dicts in order of first
  appearance (none for an empty list), and each dict gives one row.
\<close>

fun add_keys :: "string list \<Rightarrow> string list \<Rightarrow> string list" where
  "add_keys cols [] = cols"
| "add_keys cols (k # ks) = add_keys (if k \<in> set cols then cols else cols @ [k]) ks"

definition lookup_cell :: "pyrow \<Rightarrow> string \<Rightarrow> cell" where
  "lookup_cell d k = (case map_of d k of Some v \<Rightarrow> v | None \<Rightarrow> NaN)"

definition pd_DataFrame :: "pyrow list \<Rightarrow> dataframe" where
  "pd_DataFrame ds =
     (let cols = add_keys [] (concat (map (map fst) ds))
      in \<lparr>columns = cols, records = map (\<lambda>d. map (lookup_cell d) cols) ds\<rparr>)"

text \<open>
  \<open>df[[c1, c2, ...]]\<close>: pandas raises \<open>KeyError\<close> when a requested column is not a column
  of the frame.
\<close>

definition select_columns :: "dataframe \<Rightarrow> string list \<Rightarrow> error + dataframe" where
  "select_columns df cols =
     (if \<forall>c \<in> set cols. c \<in> set (columns df) then
        Inr \<lparr>columns = cols,
             records = map (\<lambda>r. map (lookup_cell (zip (columns df) r)) cols) (records df)\<rparr>
      else Inl KeyError)"

text \<open>
  The file \<open>to_csv\<close> writes, as a table: the header line when \<open>header=True\<close>, and one line
  per row, led by the row's index when \<open>index=True\<close>.
\<close>

record csv_file =
  csv_header :: "string list option"
  csv_lines :: "cell list list"

definition to_csv :: "dataframe \<Rightarrow> bool \<Rightarrow> bool \<Rightarrow> csv_file" where
  "to_csv df index header =
     \<lparr>csv_header = (if header then Some ((if index then [''''] else []) @ columns df) else None),
      csv_lines = map (\<lambda>(i, r). (if index then [IntCell (int i)] else []) @ r)
                    (zip [0..<length (records df)] (records df))\<rparr>"

text \<open>The whole script: from the rows read to the file written, or the exception raised.\<close>

definition keep_specified_classes :: "label_row list \<Rightarrow> error + csv_file" where
  "keep_specified_classes df =
     bnd (select_columns (pd_DataFrame (remap_rows df []))
            [''ImageId'', ''ClassType'', ''MultipolygonWKT''])
         (\<lambda>sel. Inr (to_csv sel False True))"

text \<open>
  The dict the loop appends for a row it keeps, the line that dict becomes in the file, and
  the test for keeping a row.
\<close>

definition row_dict :: "label_row \<Rightarrow> pyrow" where
  "row_dict row = [(''ImageId'', StrCell (ImageId row)),
                   (''ClassType'', IntCell (if ClassType row = 6 then 1 else 2)),
                   (''MultipolygonWKT'', StrCell (MultipolygonWKT row))]"

definition relabel :: "label_row \<Rightarrow> cell list" where
  "relabel row = [StrCell (ImageId row), IntCell (if ClassType row = 6 then 1 else 2),
                  StrCell (MultipolygonWKT row)]"

definition kept :: "label_row \<Rightarrow> bool" where
  "kept row = (ClassType row = 6 \<or> ClassType row = 7)"

section \<open>models.py: hyperparameters read by the networks\<close>

text \<open>
  The fields of \<open>HyperParams\<close> that the network classes read, and \<open>patch_inner\<close>, which
  with \<open>patch_border\<close> fixes the size of an input patch, typed as their defaults (Python
  ints are unbounded, so \<open>int\<close>). \<open>hps.dropout\<close> only chooses between a dropout layer and
  the identity; neither changes a shape, so the field is not part of this record.
\<close>

record HyperParams =
  classes :: "int list"
  n_channels :: int
  patch_inner :: int
  patch_border :: int
  bn :: int
  activation :: string
  filters_base :: int

definition HyperParams_default :: HyperParams where
  "HyperParams_default =
     \<lparr>classes = [0, 1, 2, 3, 4, 5, 6, 7, 8, 9], n_channels = 12, patch_inner = 64,
      patch_border = 16, bn = 1, activation = ''relu'', filters_base = 32\<rparr>"


section \<open>models.py: library layers, by their effect on shapes\<close>

text \<open>
  The learned weights and the element values of the layers of \<open>torch.nn\<close> are not part of
  the repository. A layer is modelled by what it does to the shape \<open>(B, C, H, W)\<close> of a
  4-d tensor, and by the shape errors it raises (\<open>RuntimeError\<close>): a channel count that
  does not match, a kernel larger than the padded input, a pooled output of size 0,
  concatenated tensors that disagree off the concatenation axis. The layers are taken in
  inference mode.
\<close>

type_synonym shape = "int \<times> int \<times> int \<times> int"

datatype Conv2d =
  Conv2d (in_channels: int) (out_channels: int) (kernel_size: int) (stride: int) (padding: int)

definition conv_out :: "Conv2d \<Rightarrow> int \<Rightarrow> int" where
  "conv_out c n = (n + 2 * padding c - kernel_size c) div stride c + 1"

fun Conv2d_forward :: "Conv2d \<Rightarrow> shape \<Rightarrow> error + shape" where
  "Conv2d_forward c (B, C, H, W) =
     (if C \<noteq> in_channels c then Inl RuntimeError
      else if H + 2 * padding c < kernel_size c \<or> W + 2 * padding c < kernel_size c
        then Inl RuntimeError
      else Inr (B, out_channels c, conv_out c H, conv_out c W))"

datatype BatchNorm2d = BatchNorm2d (num_features: int)

fun BatchNorm2d_forward :: "BatchNorm2d \<Rightarrow> shape \<Rightarrow> error + shape" where
  "BatchNorm2d_forward b (B, C, H, W) =
     (if C \<noteq> num_features b then Inl RuntimeError else Inr (B, C, H, W))"

text \<open>\<open>nn.MaxPool2d(2, 2)\<close>: kernel 2, stride 2, no padding.\<close>

definition pool_out :: "int \<Rightarrow> int" where
  "pool_out n = (n - 2) div 2 + 1"

fun MaxPool2d_forward :: "shape \<Rightarrow> error + shape" where
  "MaxPool2d_forward (B, C, H, W) =
     (if pool_out H \<le> 0 \<or> pool_out W \<le> 0 then Inl RuntimeError
      else Inr (B, C, pool_out H, pool_out W))"

text \<open>\<open>torch.cat(tensors, 1)\<close>: concatenation along the channel axis.\<close>

fun torch_cat1 :: "shape list \<Rightarrow> error + shape" where
  "torch_cat1 [] = Inl RuntimeError"
| "torch_cat1 [s] = Inr s"
| "torch_cat1 ((B, C, H, W) # ss) =
     bnd (torch_cat1 ss)
       (\<lambda>(B', C', H', W').
          if B = B' \<and> H = H' \<and> W = W' then Inr (B, C + C', H, W) else Inl RuntimeError)"

text \<open>
  \<open>getattr(F, hps.activation)\<close> and its call. Only \<open>relu\<close> is modelled, the default and
  the one name \<open>InceptionModule\<close> accepts: it works elementwise. Any other name is treated
  as absent from \<open>torch.nn.functional\<close>.
\<close>

definition F_getattr :: "string \<Rightarrow> error + string" where
  "F_getattr name = (if name = ''relu'' then Inr name else Inl AttributeError)"

definition F_call :: "string \<Rightarrow> shape \<Rightarrow> error + shape" where
  "F_call name x = (if name = ''relu'' then Inr x else Inl AttributeError)"

definition F_relu :: "shape \<Rightarrow> error + shape" where
  "F_relu x = Inr x"


text \<open>\<open>self.dropout2d\<close> of \<open>BaseNet\<close>: \<open>nn.Dropout2d\<close> or the identity.\<close>

definition dropout2d :: "shape \<Rightarrow> error + shape" where
  "dropout2d x = Inr x"

text \<open>
  Python's slice \<open>start:stop\<close> on an axis of length \<open>n\<close>: a negative bound counts from the
  end, both bounds are clipped to \<open>0..n\<close>, and the slice is empty when the stop is not
  after the start. \<open>crop\<close> is \<open>x[:, :, b:-b, b:-b]\<close>.
\<close>

definition slice_bound :: "int \<Rightarrow> int \<Rightarrow> int" where
  "slice_bound i n = (if i < 0 then max (i + n) 0 else min i n)"

definition slice_len :: "int \<Rightarrow> int \<Rightarrow> int \<Rightarrow> int" where
  "slice_len start stop n = max 0 (slice_bound stop n - slice_bound start n)"

fun crop :: "int \<Rightarrow> shape \<Rightarrow> shape" where
  "crop b (B, C, H, W) = (B, C, slice_len b (- b) H, slice_len b (- b) W)"

text \<open>
  \<open>upsample2d\<close> on shapes; the function itself, on values, is \<open>upsample2d\<close> below.
  \<open>torch.stack\<close> raises on an empty list of tensors, which is what the list
  comprehension yields for an axis of length 0.
\<close>

fun upsample2d_shape :: "shape \<Rightarrow> error + shape" where
  "upsample2d_shape (B, C, H, W) =
     (if H * 2 \<le> 0 then Inl RuntimeError
      else if W * 2 \<le> 0 then Inl RuntimeError
      else Inr (B, C, H * 2, W * 2))"

section \<open>models.py: the blocks\<close>

definition conv3x3 :: "int \<Rightarrow> int \<Rightarrow> Conv2d" where
  "conv3x3 inp out = Conv2d inp out 3 1 1"

text \<open>\<open>UNetModule\<close>: conv1, conv2, bn, activation, and (bn1, bn2) when bn is truthy.\<close>

datatype UNetModule =
  UNetModule Conv2d Conv2d int string "(BatchNorm2d \<times> BatchNorm2d) option"

definition new_UNetModule :: "HyperParams \<Rightarrow> int \<Rightarrow> int \<Rightarrow> error + UNetModule" where
  "new_UNetModule hps inp out =
     bnd (F_getattr (activation hps))
       (\<lambda>act. Inr (UNetModule (conv3x3 inp out) (conv3x3 out out) (bn hps) act
                     (if bn hps \<noteq> 0 then Some (BatchNorm2d out, BatchNorm2d out) else None)))"

fun UNetModule_forward :: "UNetModule \<Rightarrow> shape \<Rightarrow> error + shape" where
  "UNetModule_forward (UNetModule conv1 conv2 bn' act bns) x =
     bnd (Conv2d_forward conv1 x) (\<lambda>x.
     bnd (if bn' \<noteq> 0
          then (case bns of Some (bn1, _) \<Rightarrow> BatchNorm2d_forward bn1 x
                           | None \<Rightarrow> Inl AttributeError)
          else Inr x) (\<lambda>x.
     bnd (F_call act x) (\<lambda>x.
     bnd (Conv2d_forward conv2 x) (\<lambda>x.
     bnd (if bn' \<noteq> 0
          then (case bns of Some (_, bn2) \<Rightarrow> BatchNorm2d_forward bn2 x
                           | None \<Rightarrow> Inl AttributeError)
          else Inr x) (\<lambda>x.
     F_call act x)))))"

text \<open>\<open>Conv3BN\<close>: conv, bn (or None), activation.\<close>

datatype Conv3BN = Conv3BN Conv2d "BatchNorm2d option" string

definition new_Conv3BN :: "HyperParams \<Rightarrow> int \<Rightarrow> int \<Rightarrow> error + Conv3BN" where
  "new_Conv3BN hps inp out =
     bnd (F_getattr (activation hps))
       (\<lambda>act. Inr (Conv3BN (conv3x3 inp out)
                     (if bn hps \<noteq> 0 then Some (BatchNorm2d out) else None) act))"

fun Conv3BN_forward :: "Conv3BN \<Rightarrow> shape \<Rightarrow> error + shape" where
  "Conv3BN_forward (Conv3BN conv bn' act) x =
     bnd (Conv2d_forward conv x) (\<lambda>x.
     bnd (case bn' of Some b \<Rightarrow> BatchNorm2d_forward b x | None \<Rightarrow> Inr x) (\<lambda>x.
     F_call act x))"

datatype UNet3lModule = UNet3lModule Conv3BN Conv3BN Conv3BN

definition new_UNet3lModule :: "HyperParams \<Rightarrow> int \<Rightarrow> int \<Rightarrow> error + UNet3lModule" where
  "new_UNet3lModule hps inp out =
     bnd (new_Conv3BN hps inp out) (\<lambda>l1.
     bnd (new_Conv3BN hps out out) (\<lambda>l2.
     bnd (new_Conv3BN hps out out) (\<lambda>l3.
     Inr (UNet3lModule l1 l2 l3))))"

fun UNet3lModule_forward :: "UNet3lModule \<Rightarrow> shape \<Rightarrow> error + shape" where
  "UNet3lModule_forward (UNet3lModule l1 l2 l3) x =
     bnd (Conv3BN_forward l1 x) (\<lambda>x.
     bnd (Conv3BN_forward l2 x) (\<lambda>x.
     Conv3BN_forward l3 x))"

datatype UNet2Module = UNet2Module Conv3BN Conv3BN


fun UNet2Module_forward :: "UNet2Module \<Rightarrow> shape \<Rightarrow> error + shape" where
  "UNet2Module_forward (UNet2Module l1 l2) x =
     bnd (Conv3BN_forward l1 x) (\<lambda>x. Conv3BN_forward l2 x)"

text \<open>\<open>BasicConv2d\<close>: conv (no bias), bn, relu.\<close>

datatype BasicConv2d = BasicConv2d Conv2d BatchNorm2d

definition new_BasicConv2d :: "int \<Rightarrow> int \<Rightarrow> int \<Rightarrow> int \<Rightarrow> int \<Rightarrow> BasicConv2d" where
  "new_BasicConv2d in_planes out_planes kernel_size' stride' padding' =
     BasicConv2d (Conv2d in_planes out_planes kernel_size' stride' padding')
                 (BatchNorm2d out_planes)"

fun BasicConv2d_forward :: "BasicConv2d \<Rightarrow> shape \<Rightarrow> error + shape" where
  "BasicConv2d_forward (BasicConv2d conv bn') x =
     bnd (Conv2d_forward conv x) (\<lambda>x.
     bnd (BatchNorm2d_forward bn' x) (\<lambda>x.
     F_relu x))"

text \<open>
  \<open>InceptionModule\<close>: conv1x1, conv3x3\_pre, conv3x3, conv5x5\_pre, conv5x5. Python's
  \<open>//\<close> on ints is floor division, which is \<open>div\<close> on \<open>int\<close>. The two assertions
  come last in the constructor.
\<close>

datatype InceptionModule =
  InceptionModule BasicConv2d BasicConv2d BasicConv2d BasicConv2d BasicConv2d

definition new_InceptionModule :: "HyperParams \<Rightarrow> int \<Rightarrow> int \<Rightarrow> error + InceptionModule" where
  "new_InceptionModule hps inp out =
     (let out_1 = out * 3 div 8;
          out_2 = out * 2 div 8;
          conv1x1 = new_BasicConv2d inp out_1 1 1 0;
          conv3x3_pre = new_BasicConv2d inp (inp div 2) 1 1 0;
          conv3x3' = new_BasicConv2d (inp div 2) out_1 3 1 1;
          conv5x5_pre = new_BasicConv2d inp (inp div 4) 1 1 0;
          conv5x5 = new_BasicConv2d (inp div 4) out_2 5 1 2
      in if bn hps = 0 then Inl AssertionError
         else if activation hps \<noteq> ''relu'' then Inl AssertionError
         else Inr (InceptionModule conv1x1 conv3x3_pre conv3x3' conv5x5_pre conv5x5))"

fun InceptionModule_forward :: "InceptionModule \<Rightarrow> shape \<Rightarrow> error + shape" where
  "InceptionModule_forward (InceptionModule conv1x1 conv3x3_pre conv3x3' conv5x5_pre conv5x5) x =
     bnd (BasicConv2d_forward conv1x1 x) (\<lambda>y1.
     bnd (bnd (BasicConv2d_forward conv3x3_pre x) (BasicConv2d_forward conv3x3')) (\<lambda>y2.
     bnd (bnd (BasicConv2d_forward conv5x5_pre x) (BasicConv2d_forward conv5x5)) (\<lambda>y3.
     torch_cat1 [y1, y2, y3])))"


datatype Inception2Module = Inception2Module InceptionModule InceptionModule

definition new_Inception2Module :: "HyperParams \<Rightarrow> int \<Rightarrow> int \<Rightarrow> error + Inception2Module" where
  "new_Inception2Module hps inp out =
     bnd (new_InceptionModule hps inp out) (\<lambda>l1.
     bnd (new_InceptionModule hps out out) (\<lambda>l2.
     Inr (Inception2Module l1 l2)))"

fun Inception2Module_forward :: "Inception2Module \<Rightarrow> shape \<Rightarrow> error + shape" where
  "Inception2Module_forward (Inception2Module l1 l2) x =
     bnd (InceptionModule_forward l1 x) (\<lambda>x. InceptionModule_forward l2 x)"

section \<open>models.py: the networks\<close>

text \<open>
  The class attribute \<open>module\<close> of \<open>UNet\<close> and its subclasses names the block class;
  a \<open>module\<close> is an instance of one of them.
\<close>

datatype module_class =
  UNetModule_class | UNet3lModule_class | InceptionModule_class | Inception2Module_class

datatype module =
    Mod_UNet UNetModule
  | Mod_UNet3l UNet3lModule
  | Mod_Inception InceptionModule
  | Mod_Inception2 Inception2Module

fun new_module :: "module_class \<Rightarrow> HyperParams \<Rightarrow> int \<Rightarrow> int \<Rightarrow> error + module" where
  "new_module UNetModule_class hps inp out =
     bnd (new_UNetModule hps inp out) (\<lambda>m. Inr (Mod_UNet m))"
| "new_module UNet3lModule_class hps inp out =
     bnd (new_UNet3lModule hps inp out) (\<lambda>m. Inr (Mod_UNet3l m))"
| "new_module InceptionModule_class hps inp out =
     bnd (new_InceptionModule hps inp out) (\<lambda>m. Inr (Mod_Inception m))"
| "new_module Inception2Module_class hps inp out =
     bnd (new_Inception2Module hps inp out) (\<lambda>m. Inr (Mod_Inception2 m))"

fun module_forward :: "module \<Rightarrow> shape \<Rightarrow> error + shape" where
  "module_forward (Mod_UNet m) x = UNetModule_forward m x"
| "module_forward (Mod_UNet3l m) x = UNet3lModule_forward m x"
| "module_forward (Mod_Inception m) x = InceptionModule_forward m x"
| "module_forward (Mod_Inception2 m) x = Inception2Module_forward m x"

text \<open>
  A network instance: its hyperparameters and its layers, in the order the constructor
  creates them. \<open>UNet\<close> holds the lists down and up and conv\_final; \<open>UNet2\<close> holds
  filters, down, down\_pool, mid, up and conv\_final.
\<close>

datatype network =
    MiniNet HyperParams Conv2d Conv2d Conv2d
  | OldNet HyperParams Conv2d Conv2d Conv2d Conv2d
  | SmallNet HyperParams Conv2d Conv2d Conv2d Conv2d Conv2d
  | SmallUNet HyperParams Conv2d Conv2d Conv2d Conv2d Conv2d Conv2d Conv2d
  | UNet HyperParams "module list" "module list" Conv2d
  | UNet2 HyperParams "int list" "UNet2Module list" "Conv2d list" "Conv3BN list"
          "UNet2Module list" Conv2d













text \<open>
  The two loops of \<open>UNet.forward\<close>. In the first, \<open>xs\<close> collects the output of every
  level; the second runs over \<open>reversed(list(zip(xs[:-1], self.up)))\<close>.
\<close>

fun UNet_down :: "module list \<Rightarrow> shape list \<Rightarrow> shape \<Rightarrow> error + shape list" where
  "UNet_down [] xs x = Inr xs"
| "UNet_down (down # rest) xs x =
     bnd (if xs \<noteq> [] then bnd (MaxPool2d_forward (last xs)) (module_forward down)
          else module_forward down x) (\<lambda>x_out.
     bnd (dropout2d x_out) (\<lambda>x_out.
     UNet_down rest (xs @ [x_out]) x))"

fun UNet_up :: "(shape \<times> module) list \<Rightarrow> shape \<Rightarrow> error + shape" where
  "UNet_up [] x_out = Inr x_out"
| "UNet_up ((x_skip, up) # rest) x_out =
     bnd (upsample2d_shape x_out) (\<lambda>u.
     bnd (torch_cat1 [u, x_skip]) (\<lambda>c.
     bnd (module_forward up c) (\<lambda>x_out.
     bnd (dropout2d x_out) (\<lambda>x_out.
     UNet_up rest x_out))))"

text \<open>The two loops of \<open>UNet2.forward\<close>.\<close>

fun UNet2_down :: "(UNet2Module \<times> Conv2d) list \<Rightarrow> shape list \<Rightarrow> shape \<Rightarrow> error + shape list"
  where
  "UNet2_down [] xs x = Inr xs"
| "UNet2_down ((down, down_pool) # rest) xs x =
     bnd (if xs \<noteq> [] then bnd (Conv2d_forward down_pool (last xs)) (UNet2Module_forward down)
          else UNet2Module_forward down x) (\<lambda>x_out.
     UNet2_down rest (xs @ [x_out]) x)"

fun UNet2_up :: "(shape \<times> UNet2Module \<times> Conv3BN) list \<Rightarrow> shape \<Rightarrow> error + shape" where
  "UNet2_up [] x_out = Inr x_out"
| "UNet2_up ((x_skip, up, mid) # rest) x_out =
     bnd (upsample2d_shape x_out) (\<lambda>u.
     bnd (Conv3BN_forward mid x_skip) (\<lambda>m.
     bnd (torch_cat1 [u, m]) (\<lambda>c.
     bnd (UNet2Module_forward up c) (\<lambda>x_out.
     UNet2_up rest x_out))))"

text \<open>
  The tensor each \<open>forward\<close> has just before its last line, and the last line itself,
  \<open>F.sigmoid(x[:, :, b:-b, b:-b])\<close> with \<open>b = self.hps.patch_border\<close>, which is the same
  in every class.
\<close>

fun body :: "network \<Rightarrow> shape \<Rightarrow> error + shape" where
  "body (MiniNet hps conv1 conv2 conv3) x =
     bnd (bnd (Conv2d_forward conv1 x) F_relu) (\<lambda>x.
     bnd (bnd (Conv2d_forward conv2 x) F_relu) (\<lambda>x.
     Conv2d_forward conv3 x))"
| "body (OldNet hps conv1 conv2 conv3 conv4) x =
     bnd (bnd (Conv2d_forward conv1 x) F_relu) (\<lambda>x.
     bnd (bnd (Conv2d_forward conv2 x) F_relu) (\<lambda>x.
     bnd (bnd (Conv2d_forward conv3 x) F_relu) (\<lambda>x.
     Conv2d_forward conv4 x)))"
| "body (SmallNet hps conv1 conv2 conv3 conv4 conv5) x =
     bnd (bnd (Conv2d_forward conv1 x) F_relu) (\<lambda>x.
     bnd (bnd (Conv2d_forward conv2 x) F_relu) (\<lambda>x.
     bnd (bnd (Conv2d_forward conv3 x) F_relu) (\<lambda>x.
     bnd (bnd (Conv2d_forward conv4 x) F_relu) (\<lambda>x.
     Conv2d_forward conv5 x))))"
| "body (SmallUNet hps conv1 conv2 conv3 conv4 conv5 conv6 conv7) x =
     bnd (bnd (Conv2d_forward conv1 x) F_relu) (\<lambda>x.
     bnd (bnd (Conv2d_forward conv2 x) F_relu) (\<lambda>x.
     bnd (MaxPool2d_forward x) (\<lambda>x1.
     bnd (bnd (Conv2d_forward conv3 x1) F_relu) (\<lambda>x1.
     bnd (bnd (Conv2d_forward conv4 x1) F_relu) (\<lambda>x1.
     bnd (bnd (Conv2d_forward conv5 x1) F_relu) (\<lambda>x1.
     bnd (upsample2d_shape x1) (\<lambda>x1.
     bnd (torch_cat1 [x, x1]) (\<lambda>x.
     bnd (bnd (Conv2d_forward conv6 x) F_relu) (\<lambda>x.
     Conv2d_forward conv7 x)))))))))"
| "body (UNet hps down up conv_final) x =
     bnd (UNet_down down [] x) (\<lambda>xs.
     if xs = [] then Inl IndexError
     else bnd (UNet_up (rev (zip (butlast xs) up)) (last xs)) (\<lambda>x_out.
          Conv2d_forward conv_final x_out))"
| "body (UNet2 hps filters down down_pool mid up conv_final) x =
     bnd (UNet2_down (zip down down_pool) [] x) (\<lambda>xs.
     if xs = [] then Inl IndexError
     else bnd (UNet2_up (rev (zip (butlast xs) (zip up mid))) (last xs)) (\<lambda>x_out.
          Conv2d_forward conv_final x_out))"










section \<open>models.py: tensors with values, upsample2d and the output line\<close>

text \<open>
  The code of the repository that works on the elements of a tensor is \<open>upsample2d\<close> and
  the last line of every \<open>forward\<close>. For these a 4-d tensor is its shape together with
  the element at each index; \<open>x[:, :, k, :]\<close> and \<open>x[:, :, :, k]\<close> are 3-d tensors.
  Elements are read only at indices inside the shape.
\<close>

record 'a tensor =
  dims :: shape
  elem :: "int \<Rightarrow> int \<Rightarrow> int \<Rightarrow> int \<Rightarrow> 'a"

record 'a tensor3 =
  dims3 :: "int \<times> int \<times> int"
  elem3 :: "int \<Rightarrow> int \<Rightarrow> int \<Rightarrow> 'a"

text \<open>\<open>x.size()[2]\<close> and \<open>x.size()[3]\<close>.\<close>

definition size2 :: "'a tensor \<Rightarrow> int" where
  "size2 x = (case dims x of (B, C, H, W) \<Rightarrow> H)"

definition size3 :: "'a tensor \<Rightarrow> int" where
  "size3 x = (case dims x of (B, C, H, W) \<Rightarrow> W)"

text \<open>\<open>range(n)\<close>, and a list comprehension whose items may raise: the first raise wins.\<close>

definition py_range :: "int \<Rightarrow> int list" where
  "py_range n = [0..n - 1]"

fun collect :: "(error + 'a) list \<Rightarrow> error + 'a list" where
  "collect [] = Inr []"
| "collect (r # rs) = bnd r (\<lambda>x. bnd (collect rs) (\<lambda>xs. Inr (x # xs)))"

text \<open>
  An integer index \<open>k\<close> on an axis of length \<open>n\<close>: a negative index counts from the end,
  and an index outside the axis raises \<open>IndexError\<close>.
\<close>

definition py_index :: "int \<Rightarrow> int \<Rightarrow> error + int" where
  "py_index k n =
     (let k' = (if k < 0 then k + n else k)
      in if 0 \<le> k' \<and> k' < n then Inr k' else Inl IndexError)"

definition select_row :: "'a tensor \<Rightarrow> int \<Rightarrow> error + 'a tensor3" where
  "select_row x k =
     (case dims x of (B, C, H, W) \<Rightarrow>
        bnd (py_index k H) (\<lambda>k. Inr \<lparr>dims3 = (B, C, W), elem3 = (\<lambda>b c w. elem x b c k w)\<rparr>))"

definition select_col :: "'a tensor \<Rightarrow> int \<Rightarrow> error + 'a tensor3" where
  "select_col x k =
     (case dims x of (B, C, H, W) \<Rightarrow>
        bnd (py_index k W) (\<lambda>k. Inr \<lparr>dims3 = (B, C, H), elem3 = (\<lambda>b c h. elem x b c h k)\<rparr>))"

text \<open>
  \<open>torch.stack(ts, 2)\<close> and \<open>torch.stack(ts, 3)\<close> on 3-d tensors: the list must not be
  empty and the tensors must have one shape, or \<open>RuntimeError\<close> is raised.
\<close>

definition torch_stack2 :: "'a tensor3 list \<Rightarrow> error + 'a tensor" where
  "torch_stack2 ts =
     (case ts of
        [] \<Rightarrow> Inl RuntimeError
      | t # _ \<Rightarrow>
          if \<forall>u \<in> set ts. dims3 u = dims3 t then
            (case dims3 t of (B, C, W) \<Rightarrow>
               Inr \<lparr>dims = (B, C, int (length ts), W),
                    elem = (\<lambda>b c i w. elem3 (ts ! nat i) b c w)\<rparr>)
          else Inl RuntimeError)"

definition torch_stack3 :: "'a tensor3 list \<Rightarrow> error + 'a tensor" where
  "torch_stack3 ts =
     (case ts of
        [] \<Rightarrow> Inl RuntimeError
      | t # _ \<Rightarrow>
          if \<forall>u \<in> set ts. dims3 u = dims3 t then
            (case dims3 t of (B, C, H) \<Rightarrow>
               Inr \<lparr>dims = (B, C, H, int (length ts)),
                    elem = (\<lambda>b c h j. elem3 (ts ! nat j) b c h)\<rparr>)
          else Inl RuntimeError)"

definition upsample2d :: "'a tensor \<Rightarrow> error + 'a tensor" where
  "upsample2d x =
     bnd (collect (map (\<lambda>i. select_row x (i div 2)) (py_range (size2 x * 2)))) (\<lambda>rows.
     bnd (torch_stack2 rows) (\<lambda>x.
     bnd (collect (map (\<lambda>i. select_col x (i div 2)) (py_range (size3 x * 2)))) (\<lambda>cols.
     torch_stack3 cols)))"

text \<open>The elements of a tensor as nested lists, outermost axis first.\<close>

definition to_lists :: "'a tensor \<Rightarrow> 'a list list list list" where
  "to_lists x =
     (case dims x of (B, C, H, W) \<Rightarrow>
        map (\<lambda>b. map (\<lambda>c. map (\<lambda>i. map (\<lambda>j. elem x b c i j) (py_range W)) (py_range H))
                   (py_range C)) (py_range B))"





text \<open>
  Two ways to write a tensor down: \<open>torch.full(shape, v)\<close>, and \<open>torch.tensor\<close> of
  nested lists, which are to be rectangular and not empty.
\<close>

definition full :: "shape \<Rightarrow> 'a \<Rightarrow> 'a tensor" where
  "full s v = \<lparr>dims = s, elem = (\<lambda>b c i j. v)\<rparr>"

definition of_lists :: "'a list list list list \<Rightarrow> 'a tensor" where
  "of_lists xs =
     \<lparr>dims = (int (length xs), int (length (hd xs)), int (length (hd (hd xs))),
              int (length (hd (hd (hd xs))))),
      elem = (\<lambda>b c i j. xs ! nat b ! nat c ! nat i ! nat j)\<rparr>"




section \<open>models.py: HyperParams.update\<close>

text \<open>
  \<open>update\<close> works by reflection: it walks \<open>attr.fields(HyperParams)\<close>, looks at the type
  of each field's default and assigns with \<open>setattr\<close>. For it, a Python value is a tagged
  value and an instance is its slots, a map from attribute names to values. Floats are
  kept abstract: \<open>'f\<close> is the type of Python floats, the builtin \<open>float(s)\<close> is a parameter
  \<open>flt\<close> of the model, and so is \<open>lit\<close>, the float a literal of the source text denotes.
\<close>

datatype 'f pyvalue =
    IntV int
  | FloatV 'f
  | StrV string
  | ListV "'f pyvalue list"
  | BoolV bool
  | NoneV

type_synonym 'f object = "string \<rightharpoonup> 'f pyvalue"

type_synonym pydict = "(string \<times> string) list"

text \<open>
  \<open>attr.fields(HyperParams)\<close>: the \<open>attr.ib\<close> attributes in the order of the class body,
  each with its default. (\<open>total_classes\<close> is a plain class attribute, not a field.)
\<close>

definition HyperParams_fields :: "(string \<Rightarrow> 'f) \<Rightarrow> (string \<times> 'f pyvalue) list" where
  "HyperParams_fields lit =
     [(''classes'', ListV [IntV 0, IntV 1, IntV 2, IntV 3, IntV 4, IntV 5, IntV 6, IntV 7,
                           IntV 8, IntV 9]),
      (''net'', StrV ''UNet''),
      (''n_channels'', IntV 12),
      (''thresholds'', ListV [FloatV (lit ''0.5'')]),
      (''patch_inner'', IntV 64),
      (''patch_border'', IntV 16),
      (''augment_rotations'', FloatV (lit ''10.0'')),
      (''augment_flips'', IntV 0),
      (''augment_channels'', IntV 0),
      (''validation_square'', IntV 400),
      (''dropout'', FloatV (lit ''0.0'')),
      (''bn'', IntV 1),
      (''activation'', StrV ''relu''),
      (''dice_loss'', FloatV (lit ''0.0'')),
      (''dist_loss'', FloatV (lit ''0.0'')),
      (''filters_base'', IntV 32),
      (''n_epochs'', IntV 100),
      (''oversample'', FloatV (lit ''0.0'')),
      (''lr'', FloatV (lit ''0.0001'')),
      (''lr_decay'', FloatV (lit ''0.0'')),
      (''batch_size'', IntV 128)]"

text \<open>\<open>HyperParams()\<close>: every field at its default.\<close>

definition new_object :: "(string \<times> 'f pyvalue) list \<Rightarrow> 'f object" where
  "new_object flds = map_of flds"

definition new_HyperParams :: "(string \<Rightarrow> 'f) \<Rightarrow> 'f object" where
  "new_HyperParams lit = new_object (HyperParams_fields lit)"

text \<open>
  \<open>s.split(sep)\<close> for a one-character separator: never empty, \<open>''.split(',')\<close> is \<open>['']\<close>.
\<close>

fun str_split :: "char \<Rightarrow> string \<Rightarrow> string list" where
  "str_split sep [] = [[]]"
| "str_split sep (c # cs) =
     (if c = sep then [] # str_split sep cs
      else (case str_split sep cs of w # ws \<Rightarrow> (c # w) # ws | [] \<Rightarrow> [[c]]))"

text \<open>
  \<open>dict(iterable of lists)\<close>: every item must have exactly two elements, or \<open>ValueError\<close>
  is raised; a key that comes again keeps its place and takes the new value.
\<close>

fun dict_of_pairs :: "string list list \<Rightarrow> pydict \<Rightarrow> error + pydict" where
  "dict_of_pairs [] d = Inr d"
| "dict_of_pairs (p # ps) d =
     (case p of [k, v] \<Rightarrow> dict_of_pairs ps (AList.update k v d) | _ \<Rightarrow> Inl ValueError)"

text \<open>
  \<open>int(s)\<close> on a string: surrounding whitespace is stripped, one sign is allowed, and
  the rest is decimal digits, in groups separated by single underscores; more than 4300
  digits raise \<open>ValueError\<close> (the default limit of CPython on the conversion of a string
  to an int; signs, underscores and spaces do not count). A character of a \<open>string\<close> is a
  code point below 256. Among these, \<open>int\<close> takes as whitespace the space, the five
  control characters U+0009 to U+000D, and U+0085 and U+00A0; it does not take U+001C to
  U+001F, which \<open>str.strip\<close> would remove. The only decimal digits below 256 are
  \<open>0\<close> to \<open>9\<close>. Strings with code points from 256 on are outside the model.
\<close>

definition is_space :: "char \<Rightarrow> bool" where
  "is_space c = (c \<in> set [CHR '' '', CHR 0x09, CHR 0x0A, CHR 0x0B, CHR 0x0C, CHR 0x0D,
                           CHR 0x85, CHR 0xA0])"

definition strip :: "string \<Rightarrow> string" where
  "strip s = rev (dropWhile is_space (rev (dropWhile is_space s)))"

definition digit_value :: "char \<Rightarrow> nat option" where
  "digit_value c =
     map_of [(CHR ''0'', 0), (CHR ''1'', 1), (CHR ''2'', 2), (CHR ''3'', 3), (CHR ''4'', 4),
             (CHR ''5'', 5), (CHR ''6'', 6), (CHR ''7'', 7), (CHR ''8'', 8), (CHR ''9'', 9)] c"

fun digits_value :: "string \<Rightarrow> nat \<Rightarrow> nat option" where
  "digits_value [] acc = Some acc"
| "digits_value (c # cs) acc =
     (case digit_value c of None \<Rightarrow> None | Some d \<Rightarrow> digits_value cs (acc * 10 + d))"

definition py_int :: "string \<Rightarrow> error + int" where
  "py_int s =
     (let t = strip s;
          (sign, body) = (case t of
                            c # r \<Rightarrow> if c = CHR ''-'' then (- 1, r)
                                     else if c = CHR ''+'' then (1, r) else (1, t)
                          | [] \<Rightarrow> (1::int, t));
          groups = str_split CHR ''_'' body;
          digits = concat groups
      in if [] \<in> set groups then Inl ValueError
         else (case digits_value digits 0 of
                 None \<Rightarrow> Inl ValueError
               | Some n \<Rightarrow>
                   if 4300 < length digits then Inl ValueError else Inr (sign * int n)))"

text \<open>
  Lines 62 to 67: the assertion on the default, then the coercion by the default's type.
  \<open>bool\<close> is a subclass of \<open>int\<close> in Python, which is why the assertion comes first. A
  default that is none of int, float, str or list leaves the string as it is.
\<close>

fun coerce :: "(string \<Rightarrow> error + 'f) \<Rightarrow> 'f pyvalue \<Rightarrow> string \<Rightarrow> error + 'f pyvalue" where
  "coerce flt (BoolV d) v = Inl AssertionError"
| "coerce flt (IntV d) v = bnd (py_int v) (\<lambda>i. Inr (IntV i))"
| "coerce flt (FloatV d) v = bnd (flt v) (\<lambda>x. Inr (FloatV x))"
| "coerce flt (StrV d) v = Inr (StrV v)"
| "coerce flt (ListV d) v =
     bnd (collect (map py_int (str_split CHR ''-'' v))) (\<lambda>xs. Inr (ListV (map IntV xs)))"
| "coerce flt NoneV v = Inr (StrV v)"

text \<open>
  The strings the coercion for a default takes without raising: what \<open>int\<close> accepts for
  an int default, what \<open>float\<close> accepts for a float default, any string for a str default,
  and for a list default a string whose every piece between dashes \<open>int\<close> accepts.
\<close>

definition returns :: "error + 'a \<Rightarrow> bool" where
  "returns r = (case r of Inl e \<Rightarrow> False | Inr x \<Rightarrow> True)"

fun accepted :: "(string \<Rightarrow> error + 'f) \<Rightarrow> 'f pyvalue \<Rightarrow> string \<Rightarrow> bool" where
  "accepted flt (BoolV d) v = False"
| "accepted flt (IntV d) v = returns (py_int v)"
| "accepted flt (FloatV d) v = returns (flt v)"
| "accepted flt (StrV d) v = True"
| "accepted flt (ListV d) v = (\<forall>x \<in> set (str_split CHR ''-'' v). returns (py_int x))"
| "accepted flt NoneV v = True"

text \<open>
  The loop of lines 59 to 68 over the fields. It returns the instance as the loop left it
  together with either the exception raised or what is left in \<open>values\<close>:
  \<open>setattr\<close> has already changed the instance when a later field raises.
\<close>

fun update_loop ::
  "(string \<Rightarrow> error + 'f) \<Rightarrow> (string \<times> 'f pyvalue) list \<Rightarrow> pydict \<Rightarrow> 'f object
     \<Rightarrow> (error + pydict) \<times> 'f object" where
  "update_loop flt [] values self = (Inr values, self)"
| "update_loop flt ((name, dflt) # flds) values self =
     (case map_of values name of
        None \<Rightarrow> update_loop flt flds values self
      | Some v \<Rightarrow>
          (case coerce flt dflt v of
             Inl e \<Rightarrow> (Inl e, self)
           | Inr v' \<Rightarrow> update_loop flt flds (AList.delete name values) (self(name \<mapsto> v'))))"

text \<open>
  \<open>update\<close> for a class with the given fields: the exception raised, if any, and the
  instance after the call.
\<close>

definition update_fields ::
  "(string \<Rightarrow> error + 'f) \<Rightarrow> (string \<times> 'f pyvalue) list \<Rightarrow> 'f object \<Rightarrow> string
     \<Rightarrow> error option \<times> 'f object" where
  "update_fields flt flds self hps_string =
     (if hps_string = [] then (None, self)
      else (case dict_of_pairs (map (str_split CHR ''='') (str_split CHR '','' hps_string)) [] of
              Inl e \<Rightarrow> (Some e, self)
            | Inr values \<Rightarrow>
                (case update_loop flt flds values self of
                   (Inl e, self') \<Rightarrow> (Some e, self')
                 | (Inr rest, self') \<Rightarrow>
                     if rest \<noteq> [] then (Some (UnknownHyperparams rest), self')
                     else (None, self'))))"

definition update ::
  "(string \<Rightarrow> error + 'f) \<Rightarrow> (string \<Rightarrow> 'f) \<Rightarrow> 'f object \<Rightarrow> string \<Rightarrow> error option \<times> 'f object"
  where
  "update flt lit self hps_string = update_fields flt (HyperParams_fields lit) self hps_string"

text \<open>
  An override string written from a list of name and value pairs: \<open>name=value\<close> items
  joined by commas. A name or value is plain when it holds neither separator.
\<close>

fun join :: "string \<Rightarrow> string list \<Rightarrow> string" where
  "join sep [] = []"
| "join sep [x] = x"
| "join sep (x # y # ys) = x @ sep @ join sep (y # ys)"

definition render :: "pydict \<Rightarrow> string" where
  "render pairs = join '','' (map (\<lambda>(n, v). n @ ''='' @ v) pairs)"

definition plain :: "string \<Rightarrow> bool" where
  "plain s = (CHR '','' \<notin> set s \<and> CHR ''='' \<notin> set s)"

text \<open>
  \<open>dict(pairs)\<close> for pairs already split, and the instance \<open>update\<close> is meant to leave:
  a field named in \<open>values\<close> holds the coercion of the string given for it, every other
  attribute is as before.
\<close>

definition dict :: "pydict \<Rightarrow> pydict" where
  "dict pairs = foldl (\<lambda>d (k, v). AList.update k v d) [] pairs"

definition overridden ::
  "(string \<Rightarrow> error + 'f) \<Rightarrow> (string \<times> 'f pyvalue) list \<Rightarrow> pydict \<Rightarrow> 'f object \<Rightarrow> 'f object"
  where
  "overridden flt flds values self =
     (\<lambda>n. case map_of flds n of
             None \<Rightarrow> self n
           | Some d \<Rightarrow>
               (case map_of values n of
                  None \<Rightarrow> self n
                | Some v \<Rightarrow> (case coerce flt d v of Inr v' \<Rightarrow> Some v' | Inl e \<Rightarrow> self n)))"

section \<open>Theorems: keep\_specified\_classes.py\<close>

lemma remap_rows_append:
  "remap_rows rows acc = acc @ remap_rows rows []"
proof (induction rows arbitrary: acc)
  case Nil
  then show ?case by simp
next
  case (Cons row rows)
  show ?case
    using Cons.IH [of acc]
          Cons.IH [of "acc @ [[(''ImageId'', StrCell (ImageId row)), (''ClassType'', IntCell 1),
                               (''MultipolygonWKT'', StrCell (MultipolygonWKT row))]]"]
          Cons.IH [of "acc @ [[(''ImageId'', StrCell (ImageId row)), (''ClassType'', IntCell 2),
                               (''MultipolygonWKT'', StrCell (MultipolygonWKT row))]]"]
          Cons.IH [of "[[(''ImageId'', StrCell (ImageId row)), (''ClassType'', IntCell 1),
                               (''MultipolygonWKT'', StrCell (MultipolygonWKT row))]]"]
          Cons.IH [of "[[(''ImageId'', StrCell (ImageId row)), (''ClassType'', IntCell 2),
                               (''MultipolygonWKT'', StrCell (MultipolygonWKT row))]]"]
    by simp
qed

lemma remap_rows_filter:
  "remap_rows rows [] = map row_dict (filter kept rows)"
proof (induction rows)
  case Nil
  then show ?case by simp
next
  case (Cons row rows)
  have a: "remap_rows rows [d] = d # remap_rows rows []" for d
    using remap_rows_append [of rows "[d]"] by simp
  show ?case
    by (simp add: a Cons.IH kept_def row_dict_def)
qed

lemma add_keys_known:
  "set ks \<subseteq> set cols \<Longrightarrow> add_keys cols ks = cols"
  by (induction ks arbitrary: cols) auto

lemma add_keys_row_dicts:
  "rows \<noteq> [] \<Longrightarrow> add_keys [] (concat (map (map fst) (map row_dict rows)))
     = [''ImageId'', ''ClassType'', ''MultipolygonWKT'']"
proof (cases rows)
  case Nil
  assume "rows \<noteq> []"
  with Nil show ?thesis by simp
next
  case (Cons r rs)
  have "set (concat (map (map fst) (map row_dict rs))) \<subseteq> set [''ImageId'', ''ClassType'', ''MultipolygonWKT'']"
    by (auto simp: row_dict_def)
  then show ?thesis using Cons
    by (simp add: row_dict_def add_keys_known)
qed

lemma pd_DataFrame_row_dicts:
  "rows \<noteq> [] \<Longrightarrow> pd_DataFrame (map row_dict rows)
     = \<lparr>columns = [''ImageId'', ''ClassType'', ''MultipolygonWKT''], records = map relabel rows\<rparr>"
  unfolding pd_DataFrame_def Let_def
  using add_keys_row_dicts [of rows]
  by (simp add: row_dict_def relabel_def lookup_cell_def)

lemma select_relabel:
  "select_columns \<lparr>columns = [''ImageId'', ''ClassType'', ''MultipolygonWKT''], records = map relabel rows\<rparr>
      [''ImageId'', ''ClassType'', ''MultipolygonWKT'']
   = Inr \<lparr>columns = [''ImageId'', ''ClassType'', ''MultipolygonWKT''], records = map relabel rows\<rparr>"
  by (simp add: select_columns_def relabel_def lookup_cell_def)

lemma to_csv_no_index:
  "to_csv df False True = \<lparr>csv_header = Some (columns df), csv_lines = records df\<rparr>"
proof -
  have "map (\<lambda>(i, r). r) (zip [0..<length xs] xs) = xs" for xs :: "cell list list"
  proof -
    have "(\<lambda>(i::nat, r::cell list). r) = snd" by auto
    then show ?thesis using map_snd_zip [of "[0..<length xs]" xs] by simp
  qed
  then show ?thesis by (simp add: to_csv_def)
qed

text \<open>
  When at least one row has class 6 or 7, the script writes the header
  ImageId, ClassType, MultipolygonWKT, no index column, and one line for each such row, in
  input order, with the class rewritten to 1 or 2 and the other two cells as read.
\<close>

theorem keep_specified_classes_some:
  assumes "\<exists>row \<in> set df. kept row"
  shows "keep_specified_classes df =
     Inr \<lparr>csv_header = Some [''ImageId'', ''ClassType'', ''MultipolygonWKT''],
          csv_lines = map relabel (filter kept df)\<rparr>"
proof -
  have ne: "filter kept df \<noteq> []" using assms by (simp add: filter_empty_conv)
  show ?thesis
    unfolding keep_specified_classes_def remap_rows_filter
    by (simp add: pd_DataFrame_row_dicts [OF ne] select_relabel bnd_def to_csv_no_index)
qed

theorem keep_specified_classes_some_witness:
  "(\<exists>row \<in> set [\<lparr>ImageId = ''img1'', ClassType = 6, MultipolygonWKT = ''MULTIPOLYGON(A)''\<rparr>,
                   \<lparr>ImageId = ''img1'', ClassType = 7, MultipolygonWKT = ''MULTIPOLYGON(B)''\<rparr>,
                   \<lparr>ImageId = ''img1'', ClassType = 3, MultipolygonWKT = ''MULTIPOLYGON(C)''\<rparr>].
       kept row)
   \<and> keep_specified_classes
        [\<lparr>ImageId = ''img1'', ClassType = 6, MultipolygonWKT = ''MULTIPOLYGON(A)''\<rparr>,
         \<lparr>ImageId = ''img1'', ClassType = 7, MultipolygonWKT = ''MULTIPOLYGON(B)''\<rparr>,
         \<lparr>ImageId = ''img1'', ClassType = 3, MultipolygonWKT = ''MULTIPOLYGON(C)''\<rparr>]
       = Inr \<lparr>csv_header = Some [''ImageId'', ''ClassType'', ''MultipolygonWKT''],
              csv_lines = [[StrCell ''img1'', IntCell 1, StrCell ''MULTIPOLYGON(A)''],
                           [StrCell ''img1'', IntCell 2, StrCell ''MULTIPOLYGON(B)'']]\<rparr>"
proof -
  let ?df = "[\<lparr>ImageId = ''img1'', ClassType = 6, MultipolygonWKT = ''MULTIPOLYGON(A)''\<rparr>,
              \<lparr>ImageId = ''img1'', ClassType = 7, MultipolygonWKT = ''MULTIPOLYGON(B)''\<rparr>,
              \<lparr>ImageId = ''img1'', ClassType = 3, MultipolygonWKT = ''MULTIPOLYGON(C)''\<rparr>]"
  have a: "\<exists>row \<in> set ?df. kept row" by (simp add: kept_def)
  show ?thesis
    using keep_specified_classes_some [OF a] a by (simp add: kept_def relabel_def)
qed

lemma keep_specified_classes_none:
  assumes "\<forall>row \<in> set df. \<not> kept row"
  shows "keep_specified_classes df = Inl KeyError"
proof -
  have "filter kept df = []" using assms by (simp add: filter_empty_conv)
  then show ?thesis
    unfolding keep_specified_classes_def remap_rows_filter
    by (auto simp add: pd_DataFrame_def select_columns_def bnd_def)
qed

text \<open>
  Claim C5. The claim: for every input label table the script writes a CSV with the header
  ImageId, ClassType, MultipolygonWKT, no index column, and one line per input row of
  class 6 or 7, relabelled 1 or 2. Theorem \<open>keep_specified_classes_some\<close> shows that this
  is what happens whenever at least one row has class 6 or 7. When no row has, \<open>new_df\<close> is
  the empty list, \<open>pd.DataFrame([])\<close> has no columns, and selecting the three columns
  raises \<open>KeyError\<close> before \<open>to_csv\<close> is reached: no file is written. The theorem
  evaluates the script on the one-row table (img1, 3, MULTIPOLYGON EMPTY).
\<close>

theorem keep_specified_classes_raises_without_kept_row:
  "keep_specified_classes
     [\<lparr>ImageId = ''img1'', ClassType = 3, MultipolygonWKT = ''MULTIPOLYGON EMPTY''\<rparr>]
   = Inl KeyError"
  by (auto simp add: keep_specified_classes_def pd_DataFrame_def select_columns_def bnd_def)

section \<open>Theorems: the blocks\<close>

lemma Conv2d_forward_same:
  assumes "stride c = 1" "kernel_size c = 2 * padding c + 1" "C = in_channels c" "1 \<le> H" "1 \<le> W"
  shows "Conv2d_forward c (B, C, H, W) = Inr (B, out_channels c, H, W)"
  using assms by (simp add: conv_out_def)





section \<open>Theorems: the encoder widths\<close>







section \<open>Theorems: shapes through the layers and the networks\<close>

lemma conv_same [simp]:
  "1 \<le> H \<Longrightarrow> 1 \<le> W \<Longrightarrow> Conv2d_forward (Conv2d C out 1 1 0) (B, C, H, W) = Inr (B, out, H, W)"
  "1 \<le> H \<Longrightarrow> 1 \<le> W \<Longrightarrow> Conv2d_forward (Conv2d C out 3 1 1) (B, C, H, W) = Inr (B, out, H, W)"
  "1 \<le> H \<Longrightarrow> 1 \<le> W \<Longrightarrow> Conv2d_forward (Conv2d C out 5 1 2) (B, C, H, W) = Inr (B, out, H, W)"
  "1 \<le> H \<Longrightarrow> 1 \<le> W \<Longrightarrow> Conv2d_forward (Conv2d C out 7 1 3) (B, C, H, W) = Inr (B, out, H, W)"
  by (simp_all add: conv_out_def)

lemma pool_halves:
  "1 \<le> h \<Longrightarrow> 1 \<le> w \<Longrightarrow> MaxPool2d_forward (B, C, 2 * h, 2 * w) = Inr (B, C, h, w)"
  by (simp add: pool_out_def)

lemma strided_conv_halves:
  "1 \<le> h \<Longrightarrow> 1 \<le> w \<Longrightarrow> Conv2d_forward (Conv2d C out 3 2 1) (B, C, 2 * h, 2 * w) = Inr (B, out, h, w)"
  by (simp add: conv_out_def) presburger

lemma upsample_doubles:
  "1 \<le> h \<Longrightarrow> 1 \<le> w \<Longrightarrow> upsample2d_shape (B, C, h, w) = Inr (B, C, 2 * h, 2 * w)"
  by simp

declare Conv2d_forward.simps [simp del] MaxPool2d_forward.simps [simp del]
  upsample2d_shape.simps [simp del]

lemma bnd_Inr [simp]: "bnd (Inr x) f = f x"
  by (simp add: bnd_def)

lemma bnd_Inl [simp]: "bnd (Inl e) f = Inl e"
  by (simp add: bnd_def)

lemma UNetModule_shape:
  assumes "activation hps = ''relu''" "1 \<le> H" "1 \<le> W"
  shows "\<exists>m. new_module UNetModule_class hps C out = Inr m
             \<and> module_forward m (B, C, H, W) = Inr (B, out, H, W)"
  using assms
  by (simp add: new_UNetModule_def F_getattr_def F_call_def conv3x3_def)

lemma UNet3lModule_shape:
  assumes "activation hps = ''relu''" "1 \<le> H" "1 \<le> W"
  shows "\<exists>m. new_module UNet3lModule_class hps C out = Inr m
             \<and> module_forward m (B, C, H, W) = Inr (B, out, H, W)"
  using assms
  by (simp add: new_UNet3lModule_def new_Conv3BN_def F_getattr_def F_call_def conv3x3_def)


lemma pool_numerals [simp]:
  assumes "1 \<le> h" "1 \<le> w"
  shows "MaxPool2d_forward (B, C, 16 * h, 16 * w) = Inr (B, C, 8 * h, 8 * w)"
    and "MaxPool2d_forward (B, C, 8 * h, 8 * w) = Inr (B, C, 4 * h, 4 * w)"
    and "MaxPool2d_forward (B, C, 4 * h, 4 * w) = Inr (B, C, 2 * h, 2 * w)"
    and "MaxPool2d_forward (B, C, 2 * h, 2 * w) = Inr (B, C, h, w)"
  using assms pool_halves [of "8 * h" "8 * w" B C] pool_halves [of "4 * h" "4 * w" B C]
    pool_halves [of "2 * h" "2 * w" B C] pool_halves [of h w B C]
  by simp_all

lemma upsample_numerals [simp]:
  assumes "1 \<le> h" "1 \<le> w"
  shows "upsample2d_shape (B, C, h, w) = Inr (B, C, 2 * h, 2 * w)"
    and "upsample2d_shape (B, C, 2 * h, 2 * w) = Inr (B, C, 4 * h, 4 * w)"
    and "upsample2d_shape (B, C, 4 * h, 4 * w) = Inr (B, C, 8 * h, 8 * w)"
    and "upsample2d_shape (B, C, 8 * h, 8 * w) = Inr (B, C, 16 * h, 16 * w)"
  using assms by (simp_all add: upsample2d_shape.simps)

lemma cat2 [simp]: "torch_cat1 [(B, C, H, W), (B, C', H, W)] = Inr (B, C + C', H, W)"
  by simp










section \<open>Theorems: upsample2d\<close>

lemma collect_map:
  "(\<And>x. x \<in> set xs \<Longrightarrow> f x = Inr (g x)) \<Longrightarrow> collect (map f xs) = Inr (map g xs)"
  by (induction xs) simp_all

lemma length_py_range: "length (py_range n) = nat n"
  by (simp add: py_range_def)

lemma set_py_range: "set (py_range n) = {0..<n}"
  by (auto simp: py_range_def)

lemma nth_py_range: "0 \<le> i \<Longrightarrow> i < n \<Longrightarrow> py_range n ! nat i = i"
  by (simp add: py_range_def)

lemma py_range_nonempty: "1 \<le> n \<Longrightarrow> py_range n = 0 # [1..n - 1]"
  by (simp add: py_range_def upto_rec1)

lemma py_index_half: "0 \<le> i \<Longrightarrow> i < n * 2 \<Longrightarrow> py_index (i div 2) n = Inr (i div 2)"
proof -
  assume a: "0 \<le> i" "i < n * 2"
  then have "0 \<le> i div 2" "i div 2 < n" by presburger+
  then show ?thesis by (simp add: py_index_def)
qed

lemma rows_collect:
  assumes "dims x = (B, C, H, W)"
  shows "collect (map (\<lambda>i. select_row x (i div 2)) (py_range (H * 2)))
       = Inr (map (\<lambda>i. \<lparr>dims3 = (B, C, W), elem3 = (\<lambda>b c w. elem x b c (i div 2) w)\<rparr>)
                  (py_range (H * 2)))"
  by (rule collect_map) (auto simp: set_py_range select_row_def assms py_index_half)

lemma cols_collect:
  assumes "dims x = (B, C, H, W)"
  shows "collect (map (\<lambda>i. select_col x (i div 2)) (py_range (W * 2)))
       = Inr (map (\<lambda>i. \<lparr>dims3 = (B, C, H), elem3 = (\<lambda>b c h. elem x b c h (i div 2))\<rparr>)
                  (py_range (W * 2)))"
  by (rule collect_map) (auto simp: set_py_range select_col_def assms py_index_half)

lemma stack2_map:
  assumes "1 \<le> n"
  shows "torch_stack2 (map (\<lambda>i. \<lparr>dims3 = (B, C, W), elem3 = e i\<rparr>) (py_range n))
       = Inr \<lparr>dims = (B, C, n, W),
              elem = (\<lambda>b c i w. elem3 (map (\<lambda>i. \<lparr>dims3 = (B, C, W), elem3 = e i\<rparr>) (py_range n) ! nat i) b c w)\<rparr>"
  using assms by (auto simp: torch_stack2_def py_range_nonempty split: list.splits)

lemma stack3_map:
  assumes "1 \<le> n"
  shows "torch_stack3 (map (\<lambda>i. \<lparr>dims3 = (B, C, H), elem3 = e i\<rparr>) (py_range n))
       = Inr \<lparr>dims = (B, C, H, n),
              elem = (\<lambda>b c h j. elem3 (map (\<lambda>i. \<lparr>dims3 = (B, C, H), elem3 = e i\<rparr>) (py_range n) ! nat j) b c h)\<rparr>"
  using assms by (auto simp: torch_stack3_def py_range_nonempty split: list.splits)

lemma nth_map_py_range:
  "0 \<le> i \<Longrightarrow> i < n \<Longrightarrow> map f (py_range n) ! nat i = f i"
  by (simp add: length_py_range nth_py_range)

lemma upsample2d_value:
  assumes d: "dims x = (B, C, H, W)" and H: "1 \<le> H" and W: "1 \<le> W"
  shows "\<exists>y. upsample2d x = Inr y \<and> dims y = (B, C, H * 2, W * 2)
           \<and> (\<forall>b c i j. 0 \<le> i \<longrightarrow> i < H * 2 \<longrightarrow> 0 \<le> j \<longrightarrow> j < W * 2 \<longrightarrow>
                 elem y b c i j = elem x b c (i div 2) (j div 2))"
proof -
  let ?rows = "map (\<lambda>i. \<lparr>dims3 = (B, C, W), elem3 = (\<lambda>b c w. elem x b c (i div 2) w)\<rparr>) (py_range (H * 2))"
  let ?x1 = "\<lparr>dims = (B, C, H * 2, W), elem = (\<lambda>b c i w. elem3 (?rows ! nat i) b c w)\<rparr>"
  let ?cols = "map (\<lambda>i. \<lparr>dims3 = (B, C, H * 2), elem3 = (\<lambda>b c h. elem ?x1 b c h (i div 2))\<rparr>) (py_range (W * 2))"
  let ?y = "\<lparr>dims = (B, C, H * 2, W * 2), elem = (\<lambda>b c h j. elem3 (?cols ! nat j) b c h)\<rparr>"
  have s2: "size2 x = H" and s3: "size3 ?x1 = W" using d by (simp_all add: size2_def size3_def)
  have 1: "collect (map (\<lambda>i. select_row x (i div 2)) (py_range (size2 x * 2))) = Inr ?rows"
    unfolding s2 by (rule rows_collect [OF d])
  have 2: "torch_stack2 ?rows = Inr ?x1"
    using stack2_map [of "H * 2" B C W "\<lambda>i b c w. elem x b c (i div 2) w"] H by simp
  have 3: "collect (map (\<lambda>i. select_col ?x1 (i div 2)) (py_range (size3 ?x1 * 2))) = Inr ?cols"
    unfolding s3 by (rule cols_collect) simp
  have 4: "torch_stack3 ?cols = Inr ?y"
    using stack3_map [of "W * 2" B C "H * 2" "\<lambda>i b c h. elem ?x1 b c h (i div 2)"] W by simp
  have up: "upsample2d x = Inr ?y"
    unfolding upsample2d_def by (simp only: 1 2 3 4 bnd_Inr)
  have el: "elem ?y b c i j = elem x b c (i div 2) (j div 2)"
    if "0 \<le> i" "i < H * 2" "0 \<le> j" "j < W * 2" for b c i j
    using that by (simp add: nth_map_py_range)
  show ?thesis using up el by (intro exI [of _ ?y]) simp
qed

text \<open>
  On shapes, \<open>upsample2d\<close> is \<open>upsample2d_shape\<close>, the function the networks above use:
  the same error on an empty axis, the same doubled shape otherwise.
\<close>

theorem upsample2d_dims:
  "(case upsample2d x of Inl e \<Rightarrow> Inl e | Inr y \<Rightarrow> Inr (dims y)) = upsample2d_shape (dims x)"
proof -
  obtain B C H W where d: "dims x = (B, C, H, W)" by (cases "dims x") auto
  show ?thesis
  proof (cases "1 \<le> H")
    case False
    then have "py_range (size2 x * 2) = []" using d by (simp add: size2_def py_range_def)
    then show ?thesis using False d
      by (simp add: upsample2d_def torch_stack2_def upsample2d_shape.simps)
  next
    case H: True
    show ?thesis
    proof (cases "1 \<le> W")
      case True
      with H d upsample2d_value [OF d H True] show ?thesis
        by (auto simp: upsample2d_shape.simps)
    next
      case False
      let ?rows = "map (\<lambda>i. \<lparr>dims3 = (B, C, W), elem3 = (\<lambda>b c w. elem x b c (i div 2) w)\<rparr>) (py_range (H * 2))"
      let ?x1 = "\<lparr>dims = (B, C, H * 2, W), elem = (\<lambda>b c i w. elem3 (?rows ! nat i) b c w)\<rparr>"
      have s2: "size2 x = H" using d by (simp add: size2_def)
      have 1: "collect (map (\<lambda>i. select_row x (i div 2)) (py_range (size2 x * 2))) = Inr ?rows"
        unfolding s2 by (rule rows_collect [OF d])
      have 2: "torch_stack2 ?rows = Inr ?x1"
        using stack2_map [of "H * 2" B C W "\<lambda>i b c w. elem x b c (i div 2) w"] H by simp
      have 3: "py_range (size3 ?x1 * 2) = []" using False by (simp add: size3_def py_range_def)
      have "upsample2d x = Inl RuntimeError"
        unfolding upsample2d_def by (simp only: 1 2 bnd_Inr 3) (simp add: torch_stack3_def)
      then show ?thesis using False H d by (simp add: upsample2d_shape.simps)
    qed
  qed
qed

text \<open>
  Claim C3, as stated: for every tensor of shape \<open>(B, C, H, W)\<close>, \<open>upsample2d\<close> returns a
  tensor of shape \<open>(B, C, 2H, 2W)\<close>. On a tensor of shape \<open>(1, 1, 0, 2)\<close> the first list
  comprehension is empty and \<open>torch.stack\<close> raises.
\<close>

theorem upsample2d_empty_counterexample:
  "upsample2d (full (1, 1, 0, 2) (0::int)) = Inl RuntimeError"
  by (simp add: upsample2d_def full_def size2_def py_range_def torch_stack2_def)

text \<open>
  Claim C3, amended: for every tensor of shape \<open>(B, C, H, W)\<close> with \<open>H \<ge> 1\<close> and
  \<open>W \<ge> 1\<close>, \<open>upsample2d\<close> returns a tensor of shape \<open>(B, C, 2H, 2W)\<close> whose value at
  \<open>(2i + di, 2j + dj)\<close>, for \<open>di\<close>, \<open>dj\<close> in \<open>{0, 1}\<close>, is the source value at \<open>(i, j)\<close>.
  The witness is the \<open>(1, 1, 2, 2)\<close> tensor \<open>[[1, 2], [3, 4]]\<close>.
\<close>

theorem upsample2d_nearest:
  assumes "dims x = (B, C, H, W)" and "1 \<le> H" and "1 \<le> W"
  shows "\<exists>y. upsample2d x = Inr y \<and> dims y = (B, C, 2 * H, 2 * W)
           \<and> (\<forall>b c i j di dj. 0 \<le> i \<and> i < H \<and> 0 \<le> j \<and> j < W \<and> di \<in> {0, 1} \<and> dj \<in> {0, 1}
                 \<longrightarrow> elem y b c (2 * i + di) (2 * j + dj) = elem x b c i j)"
proof -
  from upsample2d_value [OF assms] obtain y where y: "upsample2d x = Inr y"
    "dims y = (B, C, H * 2, W * 2)"
    "\<forall>b c i j. 0 \<le> i \<longrightarrow> i < H * 2 \<longrightarrow> 0 \<le> j \<longrightarrow> j < W * 2 \<longrightarrow>
                 elem y b c i j = elem x b c (i div 2) (j div 2)"
    by blast
  have "elem y b c (2 * i + di) (2 * j + dj) = elem x b c i j"
    if "0 \<le> i" "i < H" "0 \<le> j" "j < W" "di \<in> {0, 1}" "dj \<in> {0, 1}" for b c i j di dj
  proof -
    have "(2 * i + di) div 2 = i" "(2 * j + dj) div 2 = j" using that by auto
    moreover have "0 \<le> 2 * i + di" "2 * i + di < H * 2" "0 \<le> 2 * j + dj" "2 * j + dj < W * 2"
      using that by auto
    ultimately show ?thesis using y(3) by simp
  qed
  then show ?thesis using y(1,2) by (intro exI [of _ y]) (simp add: mult.commute)
qed

theorem upsample2d_nearest_witness:
  "dims (of_lists [[[[1, 2], [3, 4::int]]]]) = (1, 1, 2, 2)
   \<and> (\<exists>y. upsample2d (of_lists [[[[1, 2], [3, 4::int]]]]) = Inr y \<and> dims y = (1, 1, 4, 4)
         \<and> to_lists y = [[[[1, 1, 2, 2], [1, 1, 2, 2], [3, 3, 4, 4], [3, 3, 4, 4]]]])"
proof -
  let ?x = "of_lists [[[[1, 2], [3, 4::int]]]]"
  have d: "dims ?x = (1, 1, 2, 2)" by (simp add: of_lists_def)
  from upsample2d_nearest [OF d] obtain y where y: "upsample2d ?x = Inr y"
    "dims y = (1, 1, 4, 4)"
    "\<forall>b c i j di dj. 0 \<le> i \<and> i < 2 \<and> 0 \<le> j \<and> j < 2 \<and> di \<in> {0, 1} \<and> dj \<in> {0, 1}
                 \<longrightarrow> elem y b c (2 * i + di) (2 * j + dj) = elem ?x b c i j"
    by auto
  have e: "elem y 0 0 (2 * i + di) (2 * j + dj) = elem ?x 0 0 i j"
    if "i \<in> {0, 1}" "j \<in> {0, 1}" "di \<in> {0, 1}" "dj \<in> {0, 1}" for i j di dj
    by (rule y(3) [rule_format]) (use that in auto)
  have r: "py_range 4 = [0, 1, 2, 3]" "py_range 1 = [0]" by (simp_all add: py_range_def upto_rec1)
  have "to_lists y = [[[[1, 1, 2, 2], [1, 1, 2, 2], [3, 3, 4, 4], [3, 3, 4, 4]]]]"
    using e [of 0 0 0 0] e [of 0 0 0 1] e [of 0 1 0 0] e [of 0 1 0 1]
          e [of 0 0 1 0] e [of 0 0 1 1] e [of 0 1 1 0] e [of 0 1 1 1]
          e [of 1 0 0 0] e [of 1 0 0 1] e [of 1 1 0 0] e [of 1 1 0 1]
          e [of 1 0 1 0] e [of 1 0 1 1] e [of 1 1 1 0] e [of 1 1 1 1]
    by (simp add: to_lists_def y(2) r of_lists_def)
  with d y(1,2) show ?thesis by blast
qed

lemma F_relu_simp [simp]: "F_relu x = Inr x"
  by (simp add: F_relu_def)





lemma strided_numerals [simp]:
  assumes "1 \<le> h" "1 \<le> w"
  shows "Conv2d_forward (Conv2d C out 3 2 1) (B, C, 16 * h, 16 * w) = Inr (B, out, 8 * h, 8 * w)"
    and "Conv2d_forward (Conv2d C out 3 2 1) (B, C, 8 * h, 8 * w) = Inr (B, out, 4 * h, 4 * w)"
    and "Conv2d_forward (Conv2d C out 3 2 1) (B, C, 4 * h, 4 * w) = Inr (B, out, 2 * h, 2 * w)"
    and "Conv2d_forward (Conv2d C out 3 2 1) (B, C, 2 * h, 2 * w) = Inr (B, out, h, w)"
  using assms strided_conv_halves [of "8 * h" "8 * w" C out B]
    strided_conv_halves [of "4 * h" "4 * w" C out B]
    strided_conv_halves [of "2 * h" "2 * w" C out B] strided_conv_halves [of h w C out B]
  by simp_all





lemma crop_zero: "crop 0 (B, C, H, W) = (B, C, 0, 0)"
  by (simp add: slice_len_def)






section \<open>Theorems: the output contract of the networks\<close>









section \<open>Theorems: HyperParams.update\<close>

lemma str_split_nonempty: "str_split c s \<noteq> []"
  by (induction s) (auto split: list.splits)

lemma str_split_no_sep: "c \<notin> set s \<Longrightarrow> str_split c s = [s]"
  by (induction s) auto

lemma str_split_append:
  "c \<notin> set x \<Longrightarrow> str_split c (x @ c # r) = x # str_split c r"
  by (induction x) auto

lemma split_join:
  "xs \<noteq> [] \<Longrightarrow> \<forall>x \<in> set xs. c \<notin> set x \<Longrightarrow> str_split c (join [c] xs) = xs"
proof (induction "[c]" xs rule: join.induct)
  case 1
  then show ?case by simp
next
  case (2 x)
  then show ?case by (simp add: str_split_no_sep)
next
  case (3 x y ys)
  then show ?case by (simp add: str_split_append)
qed

lemma split_item:
  "plain n \<Longrightarrow> plain v \<Longrightarrow> str_split CHR ''='' (n @ CHR ''='' # v) = [n, v]"
  by (simp add: plain_def str_split_append str_split_no_sep)

lemma dict_of_pairs_split:
  "dict_of_pairs (map (\<lambda>(n, v). [n, v]) pairs) d
     = Inr (foldl (\<lambda>d (k, v). AList.update k v d) d pairs)"
  by (induction pairs arbitrary: d) auto

lemma parse_render:
  assumes "pairs \<noteq> []" and "\<forall>(n, v) \<in> set pairs. plain n \<and> plain v"
  shows "dict_of_pairs (map (str_split CHR ''='') (str_split CHR '','' (render pairs))) []
         = Inr (dict pairs)"
proof -
  let ?items = "map (\<lambda>(n, v). n @ ''='' @ v) pairs"
  have "\<forall>x \<in> set ?items. CHR '','' \<notin> set x" using assms(2) by (auto simp: plain_def)
  then have "str_split CHR '','' (render pairs) = ?items"
    using assms(1) by (simp add: render_def split_join)
  moreover have "map (str_split CHR ''='') ?items = map (\<lambda>(n, v). [n, v]) pairs"
    using assms(2) by (auto simp: split_item)
  ultimately have "map (str_split CHR ''='') (str_split CHR '','' (render pairs))
      = map (\<lambda>(n, v). [n, v]) pairs"
    by (simp only:)
  then show ?thesis by (simp only: dict_of_pairs_split dict_def)
qed

lemma render_nonempty: "pairs \<noteq> [] \<Longrightarrow> render pairs \<noteq> []"
proof (cases pairs)
  case Nil
  assume "pairs \<noteq> []"
  with Nil show ?thesis by simp
next
  case (Cons p ps)
  obtain n v where p: "p = (n, v)" by (cases p)
  show ?thesis unfolding Cons p render_def by (cases ps) auto
qed

lemma map_of_foldl_update:
  "map_of (foldl (\<lambda>d (k, v). AList.update k v d) d pairs) = map_of (rev pairs @ d)"
  by (induction pairs arbitrary: d) (auto simp: update_conv' map_add_def fun_eq_iff split: option.splits)

lemma map_of_dict: "map_of (dict pairs) = map_of (rev pairs)"
  by (simp add: dict_def map_of_foldl_update)

lemma keys_dict: "fst ` set (dict pairs) = fst ` set pairs"
proof -
  have "dom (map_of (dict pairs)) = dom (map_of (rev pairs))" by (simp add: map_of_dict)
  then show ?thesis by (simp add: dom_map_of_conv_image_fst)
qed

lemma distinct_foldl_update:
  "distinct (map fst d) \<Longrightarrow> distinct (map fst (foldl (\<lambda>d (k, v). AList.update k v d) d pairs))"
  by (induction pairs arbitrary: d) (auto simp: distinct_update)

lemma distinct_dict: "distinct (map fst (dict pairs))"
  by (simp add: dict_def distinct_foldl_update)

lemma dict_distinct_names:
  "distinct (map fst pairs) \<Longrightarrow> map_of (dict pairs) = map_of pairs"
proof -
  assume d: "distinct (map fst pairs)"
  then have "distinct (map fst (rev pairs))" by (simp add: rev_map [symmetric])
  then have "map_of (rev pairs) = map_of pairs"
    using d map_of_inject_set [of "rev pairs" pairs] by simp
  then show ?thesis by (simp add: map_of_dict)
qed

lemma delete_absent: "map_of vals m = None \<Longrightarrow> filter (\<lambda>(k, _). k \<noteq> m) vals = vals"
  by (induction vals) (auto split: if_splits)

lemma update_loop_ok:
  assumes "\<And>n d v. map_of flds n = Some d \<Longrightarrow> map_of vals n = Some v
             \<Longrightarrow> \<exists>v'. coerce flt d v = Inr v'"
  shows "update_loop flt flds vals self
         = (Inr (filter (\<lambda>(k, _). k \<notin> fst ` set flds) vals), overridden flt flds vals self)"
  using assms
proof (induction flds arbitrary: vals self)
  case Nil
  then show ?case by (simp add: overridden_def)
next
  case (Cons f flds)
  obtain m d where f: "f = (m, d)" by (cases f)
  show ?case
  proof (cases "map_of vals m")
    case None
    have ih: "update_loop flt flds vals self
         = (Inr (filter (\<lambda>(k, _). k \<notin> fst ` set flds) vals), overridden flt flds vals self)"
    proof (rule Cons.IH)
      fix n d' w assume a: "map_of flds n = Some d'" "map_of vals n = Some w"
      then have "n \<noteq> m" using None by auto
      then show "\<exists>v'. coerce flt d' w = Inr v'"
        using a Cons.prems [of n d' w] by (simp add: f)
    qed
    have 1: "filter (\<lambda>(k, _). k \<notin> fst ` set (f # flds)) vals
           = filter (\<lambda>(k, _). k \<notin> fst ` set flds) vals"
    proof (rule filter_cong [OF refl])
      fix x assume "x \<in> set vals"
      then have "fst x \<noteq> m" using None by (metis map_of_eq_None_iff image_eqI)
      then show "(case x of (k, _) \<Rightarrow> k \<notin> fst ` set (f # flds))
               = (case x of (k, _) \<Rightarrow> k \<notin> fst ` set flds)"
        by (auto simp: f)
    qed
    have 2: "overridden flt (f # flds) vals self = overridden flt flds vals self"
      using None by (auto simp: overridden_def f fun_eq_iff split: option.splits)
    have "update_loop flt (f # flds) vals self = update_loop flt flds vals self"
      using None by (simp add: f)
    then show ?thesis by (simp only: ih 1 2)
  next
    case (Some v)
    from Cons.prems [of m d v] Some obtain v' where v': "coerce flt d v = Inr v'"
      by (auto simp: f)
    let ?popped = "AList.delete m vals"
    let ?self = "self(m \<mapsto> v')"
    have ih: "update_loop flt flds ?popped ?self
         = (Inr (filter (\<lambda>(k, _). k \<notin> fst ` set flds) ?popped), overridden flt flds ?popped ?self)"
    proof (rule Cons.IH)
      fix n d' w assume a: "map_of flds n = Some d'" "map_of ?popped n = Some w"
      then have "n \<noteq> m" by (auto simp: delete_conv')
      then show "\<exists>v'. coerce flt d' w = Inr v'"
        using a Cons.prems [of n d' w] by (auto simp: f delete_conv')
    qed
    have 1: "filter (\<lambda>(k, _). k \<notin> fst ` set flds) ?popped
           = filter (\<lambda>(k, _). k \<notin> fst ` set (f # flds)) vals"
      by (induction vals) (auto simp: f)
    have 2: "overridden flt flds ?popped ?self = overridden flt (f # flds) vals self"
      using Some v'
      by (auto simp: overridden_def f fun_eq_iff delete_conv' split: option.splits sum.splits)
    have "update_loop flt (f # flds) vals self = update_loop flt flds ?popped ?self"
      using Some v' by (simp add: f)
    then show ?thesis by (simp only: ih 1 2)
  qed
qed

lemma update_loop_bool:
  assumes "map_of flds n = Some (BoolV b)" and "map_of vals n = Some v"
  shows "\<exists>e self'. update_loop flt flds vals self = (Inl e, self') \<and> self' n = self n"
  using assms
proof (induction flds arbitrary: vals self)
  case Nil
  then show ?case by simp
next
  case (Cons f flds)
  obtain m d where f: "f = (m, d)" by (cases f)
  show ?case
  proof (cases "m = n")
    case True
    then show ?thesis using Cons.prems by (simp add: f)
  next
    case False
    then have fl: "map_of flds n = Some (BoolV b)" using Cons.prems by (simp add: f)
    show ?thesis
    proof (cases "map_of vals m")
      case None
      then show ?thesis using Cons.IH [OF fl Cons.prems(2), of self] by (simp add: f)
    next
      case (Some w)
      show ?thesis
      proof (cases "coerce flt d w")
        case (Inl e)
        then show ?thesis using Some by (simp add: f)
      next
        case (Inr w')
        have "map_of (AList.delete m vals) n = Some v"
          using False Cons.prems(2) by (simp add: delete_conv')
        from Cons.IH [OF fl this, of "self(m \<mapsto> w')"] obtain e self' where
          r: "update_loop flt flds (AList.delete m vals) (self(m \<mapsto> w')) = (Inl e, self')"
          "self' n = (self(m \<mapsto> w')) n"
          by blast
        from r(2) False have "self' n = self n" by simp
        with r(1) show ?thesis using Some Inr by (simp add: f)
      qed
    qed
  qed
qed

lemma py_int_16: "py_int ''16'' = Inr 16"
  by (simp add: py_int_def strip_def is_space_def digit_value_def Let_def)

lemma py_int_12: "py_int ''12'' = Inr 12"
  by (simp add: py_int_def strip_def is_space_def digit_value_def Let_def)

lemma py_int_3: "py_int ''3'' = Inr 3"
  by (simp add: py_int_def strip_def is_space_def digit_value_def Let_def)

lemma py_int_4: "py_int ''4'' = Inr 4"
  by (simp add: py_int_def strip_def is_space_def digit_value_def Let_def)

lemma py_int_abc: "py_int ''abc'' = Inl ValueError"
  by (simp add: py_int_def strip_def is_space_def digit_value_def Let_def)

lemma update_filters_base_dropout:
  assumes "flt ''0.2'' = Inr x"
  shows "update flt lit self ''filters_base=16,dropout=0.2''
         = (None, self(''dropout'' \<mapsto> FloatV x, ''filters_base'' \<mapsto> IntV 16))"
  using assms by (simp add: update_def update_fields_def HyperParams_fields_def py_int_16)

lemma update_fields_render:
  assumes ne: "pairs \<noteq> []" and pl: "\<forall>(n, v) \<in> set pairs. plain n \<and> plain v"
    and co: "\<And>n d v. map_of flds n = Some d \<Longrightarrow> map_of (dict pairs) n = Some v
               \<Longrightarrow> \<exists>v'. coerce flt d v = Inr v'"
  shows "update_fields flt flds self (render pairs)
       = (if filter (\<lambda>(k, _). k \<notin> fst ` set flds) (dict pairs) \<noteq> []
          then Some (UnknownHyperparams (filter (\<lambda>(k, _). k \<notin> fst ` set flds) (dict pairs)))
          else None,
          overridden flt flds (dict pairs) self)"
proof -
  have loop: "update_loop flt flds (dict pairs) self
         = (Inr (filter (\<lambda>(k, _). k \<notin> fst ` set flds) (dict pairs)),
            overridden flt flds (dict pairs) self)"
    by (rule update_loop_ok) (rule co)
  show ?thesis
    unfolding update_fields_def using render_nonempty [OF ne]
    by (simp add: parse_render [OF ne pl] loop)
qed

lemma coercible_dict:
  assumes "\<forall>(n, v) \<in> set pairs. \<forall>d. map_of flds n = Some d \<longrightarrow> (\<exists>v'. coerce flt d v = Inr v')"
    and "map_of flds n = Some d" and "map_of (dict pairs) n = Some v"
  shows "\<exists>v'. coerce flt d v = Inr v'"
proof -
  from assms(3) have "(n, v) \<in> set (rev pairs)" by (simp only: map_of_dict) (rule map_of_SomeD)
  then show ?thesis using assms(1,2) by auto
qed

lemma rest_names:
  "fst ` set (filter (\<lambda>(k, _). k \<notin> fst ` set flds) (dict pairs))
     = {n \<in> fst ` set pairs. n \<notin> fst ` set flds}"
proof -
  have "fst ` set (filter (\<lambda>(k, _). k \<notin> fst ` set flds) (dict pairs))
     = {n \<in> fst ` set (dict pairs). n \<notin> fst ` set flds}"
    by force
  then show ?thesis by (simp only: keys_dict)
qed

lemma rest_distinct: "distinct (map fst (filter (\<lambda>(k, _). k \<notin> fst ` set flds) (dict pairs)))"
  using distinct_dict [of pairs] by (simp add: distinct_map_filter)

lemma overridden_named:
  assumes "map_of flds n = Some d" "map_of vals n = Some v" "coerce flt d v = Inr v'"
  shows "overridden flt flds vals self n = Some v'"
  using assms by (simp add: overridden_def)

lemma overridden_other:
  assumes "map_of vals n = None"
  shows "overridden flt flds vals self n = self n"
  using assms by (simp add: overridden_def split: option.splits)

lemma update_named_coerce:
  assumes "\<forall>(n, v) \<in> set pairs. plain n \<and> plain v"
    and "distinct (map fst pairs)"
    and "\<forall>(n, v) \<in> set pairs.
           \<exists>d v'. map_of (HyperParams_fields lit) n = Some d \<and> coerce flt d v = Inr v'"
  shows "\<exists>self'. update flt lit (new_HyperParams lit) (render pairs) = (None, self')
           \<and> (\<forall>n v d v'. (n, v) \<in> set pairs \<and> map_of (HyperParams_fields lit) n = Some d
                  \<and> coerce flt d v = Inr v' \<longrightarrow> self' n = Some v')
           \<and> (\<forall>n. n \<notin> fst ` set pairs \<longrightarrow> self' n = new_HyperParams lit n)"
proof (cases "pairs = []")
  case True
  then show ?thesis by (simp add: update_def update_fields_def render_def)
next
  case False
  let ?flds = "HyperParams_fields lit"
  let ?self = "new_HyperParams lit"
  have md: "map_of (dict pairs) = map_of pairs" by (rule dict_distinct_names [OF assms(2)])
  have co: "\<exists>v'. coerce flt d v = Inr v'"
    if "map_of ?flds n = Some d" "map_of (dict pairs) n = Some v" for n d v
  proof -
    from that(2) have "(n, v) \<in> set pairs" unfolding md by (rule map_of_SomeD)
    with assms(3) that(1) show ?thesis by auto
  qed
  have "filter (\<lambda>(k, _). k \<notin> fst ` set ?flds) (dict pairs) = []"
  proof -
    have "\<forall>p \<in> set (dict pairs). fst p \<in> fst ` set ?flds"
    proof
      fix p assume "p \<in> set (dict pairs)"
      then have "fst p \<in> fst ` set (dict pairs)" by (rule imageI)
      then have "fst p \<in> fst ` set pairs" by (simp only: keys_dict)
      then obtain v where "(fst p, v) \<in> set pairs" by force
      with assms(3) obtain d where "map_of ?flds (fst p) = Some d" by fastforce
      then have "(fst p, d) \<in> set ?flds" by (rule map_of_SomeD)
      then show "fst p \<in> fst ` set ?flds" by force
    qed
    then show ?thesis unfolding filter_empty_conv by force
  qed
  with update_fields_render [OF False assms(1), of ?flds flt ?self, OF co]
  have u: "update flt lit ?self (render pairs) = (None, overridden flt ?flds (dict pairs) ?self)"
    by (simp add: update_def)
  have 1: "overridden flt ?flds (dict pairs) ?self n = Some v'"
    if "(n, v) \<in> set pairs" "map_of ?flds n = Some d" "coerce flt d v = Inr v'" for n v d v'
  proof -
    have "map_of (dict pairs) n = Some v" unfolding md using that(1) assms(2) by simp
    then show ?thesis using that by (simp add: overridden_named)
  qed
  have 2: "overridden flt ?flds (dict pairs) ?self n = ?self n" if "n \<notin> fst ` set pairs" for n
  proof -
    have "map_of (dict pairs) n = None" unfolding md using that by (simp add: map_of_eq_None_iff)
    then show ?thesis by (rule overridden_other)
  qed
  show ?thesis
  proof (intro exI [of _ "overridden flt ?flds (dict pairs) ?self"] conjI allI impI)
    show "update flt lit ?self (render pairs) = (None, overridden flt ?flds (dict pairs) ?self)"
      by (rule u)
  next
    fix n v d v'
    assume "(n, v) \<in> set pairs \<and> map_of ?flds n = Some d \<and> coerce flt d v = Inr v'"
    then show "overridden flt ?flds (dict pairs) ?self n = Some v'" using 1 by blast
  next
    fix n assume "n \<notin> fst ` set pairs"
    then show "overridden flt ?flds (dict pairs) ?self n = ?self n" by (rule 2)
  qed
qed

lemma collect_Inr:
  "collect rs = Inr xs \<Longrightarrow> rs = map Inr xs"
proof (induction rs arbitrary: xs)
  case Nil
  then show ?case by simp
next
  case (Cons r rs)
  from Cons.prems obtain y ys where r: "r = Inr y" and c: "collect rs = Inr ys" and x: "xs = y # ys"
    by (cases r; cases "collect rs") (auto simp: bnd_def)
  from Cons.IH [OF c] r x show ?case by simp
qed

lemma collect_returns:
  "\<forall>r \<in> set rs. returns r \<Longrightarrow> \<exists>xs. collect rs = Inr xs"
proof (induction rs)
  case Nil
  then show ?case by simp
next
  case (Cons r rs)
  then obtain ys where c: "collect rs = Inr ys" by auto
  from Cons.prems obtain y where "r = Inr y" by (cases r) (auto simp: returns_def)
  with c show ?case by simp
qed

lemma accepted_coerce:
  "accepted flt d v \<Longrightarrow> \<exists>v'. coerce flt d v = Inr v'"
proof (cases d)
  case (IntV i)
  assume "accepted flt d v"
  with IntV show ?thesis by (cases "py_int v") (auto simp: returns_def)
next
  case (FloatV x)
  assume "accepted flt d v"
  with FloatV show ?thesis by (cases "flt v") (auto simp: returns_def)
next
  case (StrV s)
  then show ?thesis by simp
next
  case (ListV l)
  assume "accepted flt d v"
  with ListV have "\<forall>r \<in> set (map py_int (str_split CHR ''-'' v)). returns r" by simp
  from collect_returns [OF this] ListV show ?thesis by auto
next
  case (BoolV b)
  assume "accepted flt d v"
  with BoolV show ?thesis by simp
next
  case NoneV
  then show ?thesis by simp
qed

lemma coerce_IntV:
  "coerce flt (IntV d) v = Inr v' \<Longrightarrow> \<exists>i. py_int v = Inr i \<and> v' = IntV i"
  by (cases "py_int v") auto

lemma coerce_FloatV:
  "coerce flt (FloatV d) v = Inr v' \<Longrightarrow> \<exists>x. flt v = Inr x \<and> v' = FloatV x"
  by (cases "flt v") auto

lemma coerce_ListV:
  "coerce flt (ListV d) v = Inr v'
     \<Longrightarrow> \<exists>xs. map py_int (str_split CHR ''-'' v) = map Inr xs \<and> v' = ListV (map IntV xs)"
proof -
  assume a: "coerce flt (ListV d) v = Inr v'"
  then obtain xs where c: "collect (map py_int (str_split CHR ''-'' v)) = Inr xs"
    and v': "v' = ListV (map IntV xs)"
    by (cases "collect (map py_int (str_split CHR ''-'' v))") auto
  from collect_Inr [OF c] v' show ?thesis by blast
qed

text \<open>
  Claim C6. On an instance at its defaults, \<open>update\<close> of a string of \<open>name=value\<close> items
  joined by commas, where the names are distinct fields, names and values hold no comma
  and no equals sign, and every value is one the coercion for its field accepts, raises
  nothing and leaves the instance as follows. A named field whose default is an int holds
  \<open>int(v)\<close>; one whose default is a float holds \<open>float(v)\<close>; one whose default is a str
  holds \<open>v\<close> itself; one whose default is a list holds the list of \<open>int(x)\<close> for the pieces
  \<open>x\<close> of \<open>v.split('-')\<close>, in order. Every attribute not named keeps its default. (Every
  field of \<open>HyperParams\<close> has a default of one of these four types.) The witness is
  \<open>filters_base=16,dropout=0.2\<close>, with floats written as their decimal text.
\<close>

theorem update_sets_named_fields:
  assumes "\<forall>(n, v) \<in> set pairs. plain n \<and> plain v"
    and "distinct (map fst pairs)"
    and "\<forall>(n, v) \<in> set pairs.
           \<exists>d. map_of (HyperParams_fields lit) n = Some d \<and> accepted flt d v"
  shows "\<exists>self'. update flt lit (new_HyperParams lit) (render pairs) = (None, self')
           \<and> (\<forall>n v d. (n, v) \<in> set pairs \<and> map_of (HyperParams_fields lit) n = Some (IntV d)
                  \<longrightarrow> (\<exists>i. py_int v = Inr i \<and> self' n = Some (IntV i)))
           \<and> (\<forall>n v d. (n, v) \<in> set pairs \<and> map_of (HyperParams_fields lit) n = Some (FloatV d)
                  \<longrightarrow> (\<exists>x. flt v = Inr x \<and> self' n = Some (FloatV x)))
           \<and> (\<forall>n v d. (n, v) \<in> set pairs \<and> map_of (HyperParams_fields lit) n = Some (StrV d)
                  \<longrightarrow> self' n = Some (StrV v))
           \<and> (\<forall>n v d. (n, v) \<in> set pairs \<and> map_of (HyperParams_fields lit) n = Some (ListV d)
                  \<longrightarrow> (\<exists>xs. map py_int (str_split CHR ''-'' v) = map Inr xs
                            \<and> self' n = Some (ListV (map IntV xs))))
           \<and> (\<forall>n. n \<notin> fst ` set pairs \<longrightarrow> self' n = new_HyperParams lit n)
           \<and> (\<forall>n d. map_of (HyperParams_fields lit) n = Some d
                  \<longrightarrow> (\<exists>i. d = IntV i) \<or> (\<exists>x. d = FloatV x) \<or> (\<exists>s. d = StrV s) \<or> (\<exists>l. d = ListV l))"
proof -
  let ?flds = "HyperParams_fields lit"
  have a3: "\<forall>(n, v) \<in> set pairs. \<exists>d v'. map_of ?flds n = Some d \<and> coerce flt d v = Inr v'"
  proof (intro ballI, clarify)
    fix n v assume "(n, v) \<in> set pairs"
    with assms(3) obtain d where d: "map_of ?flds n = Some d" "accepted flt d v" by fastforce
    from accepted_coerce [OF d(2)] d(1)
    show "\<exists>d v'. map_of ?flds n = Some d \<and> coerce flt d v = Inr v'" by blast
  qed
  from update_named_coerce [OF assms(1,2) a3] obtain self' where
    u: "update flt lit (new_HyperParams lit) (render pairs) = (None, self')"
    and named: "\<And>n v d v'. (n, v) \<in> set pairs \<Longrightarrow> map_of ?flds n = Some d
                  \<Longrightarrow> coerce flt d v = Inr v' \<Longrightarrow> self' n = Some v'"
    and other: "\<forall>n. n \<notin> fst ` set pairs \<longrightarrow> self' n = new_HyperParams lit n"
    by blast
  have co: "\<exists>v'. coerce flt d v = Inr v'"
    if "(n, v) \<in> set pairs" "map_of ?flds n = Some d" for n v d
    using a3 that by fastforce
  have i: "\<exists>i. py_int v = Inr i \<and> self' n = Some (IntV i)"
    if "(n, v) \<in> set pairs \<and> map_of ?flds n = Some (IntV d)" for n v d
  proof -
    from co that obtain v' where v': "coerce flt (IntV d) v = Inr v'" by blast
    from coerce_IntV [OF v'] named [OF _ _ v'] that show ?thesis by blast
  qed
  have f: "\<exists>x. flt v = Inr x \<and> self' n = Some (FloatV x)"
    if "(n, v) \<in> set pairs \<and> map_of ?flds n = Some (FloatV d)" for n v d
  proof -
    from co that obtain v' where v': "coerce flt (FloatV d) v = Inr v'" by blast
    from coerce_FloatV [OF v'] named [OF _ _ v'] that show ?thesis by blast
  qed
  have s: "self' n = Some (StrV v)"
    if "(n, v) \<in> set pairs \<and> map_of ?flds n = Some (StrV d)" for n v d
    using named [of n v "StrV d" "StrV v"] that by simp
  have l: "\<exists>xs. map py_int (str_split CHR ''-'' v) = map Inr xs
                            \<and> self' n = Some (ListV (map IntV xs))"
    if "(n, v) \<in> set pairs \<and> map_of ?flds n = Some (ListV d)" for n v d
  proof -
    from co that obtain v' where v': "coerce flt (ListV d) v = Inr v'" by blast
    from coerce_ListV [OF v'] named [OF _ _ v'] that show ?thesis by blast
  qed
  have t: "(\<exists>i. d = IntV i) \<or> (\<exists>x. d = FloatV x) \<or> (\<exists>s. d = StrV s) \<or> (\<exists>l. d = ListV l)"
    if "map_of ?flds n = Some d" for n d
  proof -
    from that have "(n, d) \<in> set ?flds" by (rule map_of_SomeD)
    then show ?thesis by (auto simp: HyperParams_fields_def)
  qed
  show ?thesis
    using u i f s l other t by (intro exI [of _ self']) blast
qed

theorem update_sets_named_fields_witness:
  "render [(''filters_base'', ''16''), (''dropout'', ''0.2'')] = ''filters_base=16,dropout=0.2''
   \<and> update Inr id (new_HyperParams id) ''filters_base=16,dropout=0.2''
       = (None, (new_HyperParams id)(''filters_base'' \<mapsto> IntV 16, ''dropout'' \<mapsto> FloatV ''0.2''))"
proof -
  let ?pairs = "[(''filters_base'', ''16''), (''dropout'', ''0.2'')]"
  let ?flds = "HyperParams_fields (id :: string \<Rightarrow> string)"
  let ?flt = "Inr :: string \<Rightarrow> error + string"
  have r: "render ?pairs = ''filters_base=16,dropout=0.2''" by (simp add: render_def)
  have f1: "map_of ?flds ''filters_base'' = Some (IntV 32)"
    and f2: "map_of ?flds ''dropout'' = Some (FloatV ''0.0'')"
    by (simp_all add: HyperParams_fields_def)
  have a1: "\<forall>(n, v) \<in> set ?pairs. plain n \<and> plain v" by (simp add: plain_def)
  have a2: "distinct (map fst ?pairs)" by simp
  have a3: "\<forall>(n, v) \<in> set ?pairs. \<exists>d. map_of ?flds n = Some d \<and> accepted ?flt d v"
    using f1 f2 by (simp add: py_int_16 returns_def)
  from update_sets_named_fields [OF a1 a2 a3] obtain self' where
    u: "update ?flt id (new_HyperParams id) (render ?pairs) = (None, self')"
    and ints: "\<forall>n v d. (n, v) \<in> set ?pairs \<and> map_of ?flds n = Some (IntV d)
                  \<longrightarrow> (\<exists>i. py_int v = Inr i \<and> self' n = Some (IntV i))"
    and floats: "\<forall>n v d. (n, v) \<in> set ?pairs \<and> map_of ?flds n = Some (FloatV d)
                  \<longrightarrow> (\<exists>x. ?flt v = Inr x \<and> self' n = Some (FloatV x))"
    and other: "\<forall>n. n \<notin> fst ` set ?pairs \<longrightarrow> self' n = new_HyperParams id n"
    by blast
  have s1: "self' ''filters_base'' = Some (IntV 16)"
    using ints [rule_format, of "''filters_base''" "''16''" 32] f1 by (simp add: py_int_16)
  have s2: "self' ''dropout'' = Some (FloatV ''0.2'')"
    using floats [rule_format, of "''dropout''" "''0.2''" "''0.0''"] f2 by simp
  have "self' = (new_HyperParams id)(''filters_base'' \<mapsto> IntV 16, ''dropout'' \<mapsto> FloatV ''0.2'')"
  proof (rule ext)
    fix n :: string
    show "self' n = ((new_HyperParams id)(''filters_base'' \<mapsto> IntV 16,
                       ''dropout'' \<mapsto> FloatV ''0.2'')) n"
    proof (cases "n = ''filters_base'' \<or> n = ''dropout''")
      case True
      then show ?thesis using s1 s2 by auto
    next
      case False
      then have "n \<notin> fst ` set ?pairs" by simp
      then have "self' n = new_HyperParams id n" using other by blast
      then show ?thesis using False by simp
    qed
  qed
  with u r show ?thesis by simp
qed

text \<open>
  Claim C7, as stated: every override string with a \<open>name=value\<close> item whose name is not
  a field makes \<open>update\<close> raise the error that lists the unrecognized names. In
  \<open>foo=1,n_channels=abc\<close> the name \<open>foo\<close> is not a field, but the loop reaches
  \<open>n_channels\<close> first and \<open>int('abc')\<close> raises its own \<open>ValueError\<close>: the error that
  lists \<open>foo\<close> is never built.
\<close>

theorem update_unknown_counterexample:
  "map_of (HyperParams_fields (id :: string \<Rightarrow> string)) ''foo'' = None
   \<and> update Inr id (new_HyperParams id) ''foo=1,n_channels=abc''
       = (Some ValueError, new_HyperParams id)"
  by (simp add: update_def update_fields_def HyperParams_fields_def py_int_abc)

text \<open>
  Claim C7, amended: for every override string made of \<open>name=value\<close> items (names and
  values without separators) in which every value given for a field is one the field's
  coercion accepts, and at least one name is not a field, \<open>update\<close> raises
  \<open>ValueError('Unknown hyperparams: ...')\<close> on the dict of the leftover items, whose keys
  are exactly the unrecognized names, each once. For \<open>foo=1\<close> the dict is \<open>{'foo': '1'}\<close>.
\<close>

theorem update_unknown_names:
  assumes "\<forall>(n, v) \<in> set pairs. plain n \<and> plain v"
    and "\<forall>(n, v) \<in> set pairs. \<forall>d. map_of (HyperParams_fields lit) n = Some d
           \<longrightarrow> (\<exists>v'. coerce flt d v = Inr v')"
    and "\<exists>(n, v) \<in> set pairs. n \<notin> fst ` set (HyperParams_fields lit)"
  shows "\<exists>rest self'. update flt lit self (render pairs) = (Some (UnknownHyperparams rest), self')
           \<and> set (map fst rest) = {n \<in> fst ` set pairs. n \<notin> fst ` set (HyperParams_fields lit)}
           \<and> distinct (map fst rest)"
proof -
  let ?flds = "HyperParams_fields lit"
  let ?rest = "filter (\<lambda>(k, _). k \<notin> fst ` set ?flds) (dict pairs)"
  from assms(3) have ne: "pairs \<noteq> []" by auto
  have names: "fst ` set ?rest = {n \<in> fst ` set pairs. n \<notin> fst ` set ?flds}"
    by (rule rest_names)
  have "fst ` set ?rest \<noteq> {}" unfolding names using assms(3) by force
  then have "set ?rest \<noteq> {}" by blast
  then have rne: "?rest \<noteq> []" by (simp only: set_empty not_False_eq_True)
  have "update flt lit self (render pairs)
          = (Some (UnknownHyperparams ?rest), overridden flt ?flds (dict pairs) self)"
    using update_fields_render [OF ne assms(1), of ?flds flt self,
            OF coercible_dict [OF assms(2)]] rne
    by (simp add: update_def)
  then show ?thesis using names rest_distinct [of ?flds pairs] by auto
qed

theorem update_unknown_names_witness:
  "render [(''foo'', ''1'')] = ''foo=1''
   \<and> update Inr id (new_HyperParams id) ''foo=1''
       = (Some (UnknownHyperparams [(''foo'', ''1'')]), new_HyperParams (id :: string \<Rightarrow> string))"
proof -
  let ?pairs = "[(''foo'', ''1'')]"
  let ?flds = "HyperParams_fields (id :: string \<Rightarrow> string)"
  let ?flt = "Inr :: string \<Rightarrow> error + string"
  have r: "render ?pairs = ''foo=1''" by (simp add: render_def)
  have nf: "''foo'' \<notin> fst ` set ?flds" by (simp add: HyperParams_fields_def)
  then have nm: "map_of ?flds ''foo'' = None" by (simp add: map_of_eq_None_iff)
  have a1: "\<forall>(n, v) \<in> set ?pairs. plain n \<and> plain v" by (simp add: plain_def)
  have a2: "\<forall>(n, v) \<in> set ?pairs. \<forall>d. map_of ?flds n = Some d
           \<longrightarrow> (\<exists>v'. coerce ?flt d v = Inr v')"
    using nm by simp
  have a3: "\<exists>(n, v) \<in> set ?pairs. n \<notin> fst ` set ?flds" using nf by simp
  from update_unknown_names [OF a1 a2 a3, of "new_HyperParams id"] obtain rest self' where
    u: "update ?flt id (new_HyperParams id) (render ?pairs) = (Some (UnknownHyperparams rest), self')"
    by blast
  have "update ?flt id (new_HyperParams id) ''foo=1''
       = (Some (UnknownHyperparams [(''foo'', ''1'')]), new_HyperParams id)"
    by (simp add: update_def update_fields_def HyperParams_fields_def)
  with u r show ?thesis by simp
qed

lemma no_bool_default:
  "(n, d) \<in> set (HyperParams_fields lit) \<Longrightarrow> d \<noteq> BoolV b"
  by (auto simp: HyperParams_fields_def)

lemma update_loop_bool_single:
  assumes "map_of flds n = Some (BoolV b)"
  shows "update_loop flt flds [(n, v)] self = (Inl AssertionError, self)"
  using assms by (induction flds) (auto split: if_splits)

text \<open>
  Claim C8. For a class whose field \<open>n\<close> has a boolean default, \<open>update\<close> of the string
  \<open>n=v\<close> raises \<open>AssertionError\<close> and assigns nothing; and whatever else an override
  string holds, if it names \<open>n\<close> then \<open>update\<close> raises and \<open>n\<close> keeps its value: a
  boolean-defaulted field is never overridden. (No field of \<open>HyperParams\<close> itself has a
  boolean default, lemma \<open>no_bool_default\<close>, so the theorem is about \<open>update\<close> over any list
  of fields.)
\<close>

theorem update_bool_default_asserts:
  assumes "map_of flds n = Some (BoolV b)" and "plain n" and "plain v"
  shows "update_fields flt flds self (render [(n, v)]) = (Some AssertionError, self)
       \<and> (\<forall>pairs. (n, v) \<in> set pairs \<and> (\<forall>(m, w) \<in> set pairs. plain m \<and> plain w) \<longrightarrow>
            (\<exists>e self'. update_fields flt flds self (render pairs) = (Some e, self')
                         \<and> self' n = self n))"
proof
  have a: "\<forall>(m, w) \<in> set [(n, v)]. plain m \<and> plain w" using assms(2,3) by simp
  have "dict [(n, v)] = [(n, v)]" by (simp add: dict_def)
  then show "update_fields flt flds self (render [(n, v)]) = (Some AssertionError, self)"
    unfolding update_fields_def
    using render_nonempty [of "[(n, v)]"] parse_render [OF _ a]
    by (simp add: update_loop_bool_single [OF assms(1)])
next
  show "\<forall>pairs. (n, v) \<in> set pairs \<and> (\<forall>(m, w) \<in> set pairs. plain m \<and> plain w) \<longrightarrow>
            (\<exists>e self'. update_fields flt flds self (render pairs) = (Some e, self')
                         \<and> self' n = self n)"
  proof (intro allI impI)
    fix pairs
    assume p: "(n, v) \<in> set pairs \<and> (\<forall>(m, w) \<in> set pairs. plain m \<and> plain w)"
    then have ne: "pairs \<noteq> []" by auto
    from p have "n \<in> fst ` set (dict pairs)" unfolding keys_dict by force
    then obtain w where w: "map_of (dict pairs) n = Some w"
      by (metis map_of_eq_None_iff not_Some_eq)
    from update_loop_bool [OF assms(1) w, of flt self] obtain e self' where
      l: "update_loop flt flds (dict pairs) self = (Inl e, self')" "self' n = self n"
      by blast
    have "update_fields flt flds self (render pairs) = (Some e, self')"
      unfolding update_fields_def
      using render_nonempty [OF ne] parse_render [OF ne conjunct2 [OF p]] l(1) by simp
    with l(2) show "\<exists>e self'. update_fields flt flds self (render pairs) = (Some e, self')
                         \<and> self' n = self n"
      by blast
  qed
qed

theorem update_bool_default_asserts_witness:
  "map_of [(''flag'', BoolV True)] ''flag'' = Some (BoolV True) \<and> plain ''flag'' \<and> plain ''0''
   \<and> render [(''flag'', ''0'')] = ''flag=0''
   \<and> update_fields (Inr :: string \<Rightarrow> error + string) [(''flag'', BoolV True)]
         (new_object [(''flag'', BoolV True)]) ''flag=0''
       = (Some AssertionError, new_object [(''flag'', BoolV True)])"
proof -
  have a: "map_of [(''flag'', BoolV True :: string pyvalue)] ''flag'' = Some (BoolV True)"
    by simp
  have b: "plain ''flag''" "plain ''0''" by (simp_all add: plain_def)
  have r: "render [(''flag'', ''0'')] = ''flag=0''" by (simp add: render_def)
  from update_bool_default_asserts [OF a b, of Inr "new_object [(''flag'', BoolV True)]"]
  show ?thesis using a b r by simp
qed

text \<open>
  Claim C10, as stated: after a call that fails on an unrecognized name, a recognized
  field named earlier in the string has its new value, so the instance differs from what
  it was before the call. Three runs on an instance at its defaults show what the claim
  leaves out. \<open>n_channels=12,foo=1\<close> raises on \<open>foo\<close> after assigning \<open>n_channels\<close> the
  value it already had: the instance is as it was. \<open>n_channels=abc,foo=1\<close> raises the
  \<open>ValueError\<close> of \<open>int('abc')\<close> before anything is assigned and before the unknown name
  is looked at. \<open>n_channels=3,n_channels=4,foo=1\<close> raises on \<open>foo\<close> with \<open>n_channels\<close>
  set to 4: the pair \<open>n_channels=3\<close> is recognized and is followed by the unknown name,
  but 3 is never assigned, since \<open>dict\<close> keeps the last value given for a name.
\<close>

theorem update_not_atomic_counterexample:
  "map_of (HyperParams_fields (id :: string \<Rightarrow> string)) ''n_channels'' = Some (IntV 12)
   \<and> map_of (HyperParams_fields (id :: string \<Rightarrow> string)) ''foo'' = None
   \<and> update Inr id (new_HyperParams id) ''n_channels=12,foo=1''
       = (Some (UnknownHyperparams [(''foo'', ''1'')]), new_HyperParams id)
   \<and> update Inr id (new_HyperParams id) ''n_channels=abc,foo=1''
       = (Some ValueError, new_HyperParams id)
   \<and> update Inr id (new_HyperParams id) ''n_channels=3,n_channels=4,foo=1''
       = (Some (UnknownHyperparams [(''foo'', ''1'')]),
          (new_HyperParams id)(''n_channels'' \<mapsto> IntV 4))
   \<and> ((new_HyperParams (id :: string \<Rightarrow> string))(''n_channels'' \<mapsto> IntV 4)) ''n_channels''
       \<noteq> Some (IntV 3)"
proof -
  have "new_HyperParams (id :: string \<Rightarrow> string) ''n_channels'' = Some (IntV 12)"
    by (simp add: new_HyperParams_def new_object_def HyperParams_fields_def)
  then have "(new_HyperParams (id :: string \<Rightarrow> string))(''n_channels'' \<mapsto> IntV 12)
               = new_HyperParams id"
    by (rule map_upd_triv)
  moreover have "update Inr id (new_HyperParams (id :: string \<Rightarrow> string)) ''n_channels=12,foo=1''
       = (Some (UnknownHyperparams [(''foo'', ''1'')]),
          (new_HyperParams id)(''n_channels'' \<mapsto> IntV 12))"
    by (simp add: update_def update_fields_def HyperParams_fields_def py_int_12)
  moreover have "update Inr id (new_HyperParams (id :: string \<Rightarrow> string)) ''n_channels=abc,foo=1''
       = (Some ValueError, new_HyperParams id)"
    by (simp add: update_def update_fields_def HyperParams_fields_def py_int_abc)
  moreover have "update Inr id (new_HyperParams (id :: string \<Rightarrow> string))
         ''n_channels=3,n_channels=4,foo=1''
       = (Some (UnknownHyperparams [(''foo'', ''1'')]),
          (new_HyperParams id)(''n_channels'' \<mapsto> IntV 4))"
    by (simp add: update_def update_fields_def HyperParams_fields_def py_int_4)
  ultimately show ?thesis by (simp add: HyperParams_fields_def)
qed

text \<open>
  Claim C10, amended: \<open>update\<close> is not atomic on error. For every override string made of
  \<open>name=value\<close> items with distinct names (names and values without separators) in which
  every value given for a field is accepted by the field's coercion, a field \<open>n\<close> is
  given the value \<open>v\<close>, and some name is not a field, the call raises the error for the
  unknown names and the instance it leaves has \<open>n\<close> set to the coercion of \<open>v\<close>; the
  instance differs from its state before the call whenever that is not the value \<open>n\<close>
  had. This holds wherever the unknown name stands in the string.
\<close>

theorem update_not_atomic:
  assumes "\<forall>(m, w) \<in> set pairs. plain m \<and> plain w"
    and "distinct (map fst pairs)"
    and "\<forall>(m, w) \<in> set pairs. \<forall>d. map_of (HyperParams_fields lit) m = Some d
           \<longrightarrow> (\<exists>w'. coerce flt d w = Inr w')"
    and "(n, v) \<in> set pairs" and "map_of (HyperParams_fields lit) n = Some d"
    and "coerce flt d v = Inr v'"
    and "\<exists>(m, w) \<in> set pairs. m \<notin> fst ` set (HyperParams_fields lit)"
  shows "\<exists>rest self'. update flt lit self (render pairs) = (Some (UnknownHyperparams rest), self')
           \<and> self' n = Some v' \<and> (self n \<noteq> Some v' \<longrightarrow> self' \<noteq> self)"
proof -
  let ?flds = "HyperParams_fields lit"
  let ?rest = "filter (\<lambda>(k, _). k \<notin> fst ` set ?flds) (dict pairs)"
  let ?self = "overridden flt ?flds (dict pairs) self"
  from assms(4) have ne: "pairs \<noteq> []" by auto
  have "fst ` set ?rest \<noteq> {}" unfolding rest_names using assms(7) by force
  then have "set ?rest \<noteq> {}" by blast
  then have rne: "?rest \<noteq> []" by (simp only: set_empty not_False_eq_True)
  have u: "update flt lit self (render pairs) = (Some (UnknownHyperparams ?rest), ?self)"
    using update_fields_render [OF ne assms(1), of ?flds flt self,
            OF coercible_dict [OF assms(3)]] rne
    by (simp add: update_def)
  have "map_of (dict pairs) n = Some v"
    using assms(2,4) by (simp add: dict_distinct_names)
  then have n: "?self n = Some v'" using assms(5,6) by (simp add: overridden_named)
  then have "self n \<noteq> Some v' \<longrightarrow> ?self \<noteq> self" by auto
  with u n show ?thesis by blast
qed

theorem update_not_atomic_witness:
  "render [(''n_channels'', ''3''), (''foo'', ''1'')] = ''n_channels=3,foo=1''
   \<and> update Inr id (new_HyperParams id) ''n_channels=3,foo=1''
       = (Some (UnknownHyperparams [(''foo'', ''1'')]),
          (new_HyperParams (id :: string \<Rightarrow> string))(''n_channels'' \<mapsto> IntV 3))
   \<and> (new_HyperParams (id :: string \<Rightarrow> string))(''n_channels'' \<mapsto> IntV 3) \<noteq> new_HyperParams id"
proof -
  let ?pairs = "[(''n_channels'', ''3''), (''foo'', ''1'')]"
  let ?flds = "HyperParams_fields (id :: string \<Rightarrow> string)"
  let ?flt = "Inr :: string \<Rightarrow> error + string"
  let ?self = "new_HyperParams (id :: string \<Rightarrow> string)"
  have r: "render ?pairs = ''n_channels=3,foo=1''" by (simp add: render_def)
  have nf: "''foo'' \<notin> fst ` set ?flds" by (simp add: HyperParams_fields_def)
  then have nm: "map_of ?flds ''foo'' = None" by (simp add: map_of_eq_None_iff)
  have f: "map_of ?flds ''n_channels'' = Some (IntV 12)" by (simp add: HyperParams_fields_def)
  have c: "coerce ?flt (IntV 12) ''3'' = Inr (IntV 3)" by (simp add: py_int_3)
  have a1: "\<forall>(m, w) \<in> set ?pairs. plain m \<and> plain w" by (simp add: plain_def)
  have a2: "distinct (map fst ?pairs)" by simp
  have a3: "\<forall>(m, w) \<in> set ?pairs. \<forall>d. map_of ?flds m = Some d
           \<longrightarrow> (\<exists>w'. coerce ?flt d w = Inr w')"
    using nm f c by simp
  have a4: "(''n_channels'', ''3'') \<in> set ?pairs" by simp
  have a7: "\<exists>(m, w) \<in> set ?pairs. m \<notin> fst ` set ?flds" using nf by simp
  have s: "?self ''n_channels'' = Some (IntV 12)"
    by (simp add: new_HyperParams_def new_object_def HyperParams_fields_def)
  from update_not_atomic [OF a1 a2 a3 a4 f c a7, of ?self] obtain rest self' where
    u: "update ?flt id ?self (render ?pairs) = (Some (UnknownHyperparams rest), self')"
    and d: "self' ''n_channels'' = Some (IntV 3)" "?self ''n_channels'' \<noteq> Some (IntV 3) \<longrightarrow> self' \<noteq> ?self"
    by blast
  have e: "update ?flt id ?self ''n_channels=3,foo=1''
       = (Some (UnknownHyperparams [(''foo'', ''1'')]), ?self(''n_channels'' \<mapsto> IntV 3))"
    by (simp add: update_def update_fields_def HyperParams_fields_def py_int_3)
  from u e r have "self' = ?self(''n_channels'' \<mapsto> IntV 3)" by simp
  with d(2) s have "?self(''n_channels'' \<mapsto> IntV 3) \<noteq> ?self" by simp
  with e r show ?thesis by simp
qed

text \<open>
  The record \<open>HyperParams\<close> used for the networks and the slots used for \<open>update\<close>
  describe one class: the fields the networks read have the same defaults in both.
\<close>

lemma defaults_agree:
  "new_HyperParams lit ''classes'' = Some (ListV (map IntV (classes HyperParams_default)))"
  "new_HyperParams lit ''n_channels'' = Some (IntV (n_channels HyperParams_default))"
  "new_HyperParams lit ''patch_inner'' = Some (IntV (patch_inner HyperParams_default))"
  "new_HyperParams lit ''patch_border'' = Some (IntV (patch_border HyperParams_default))"
  "new_HyperParams lit ''bn'' = Some (IntV (bn HyperParams_default))"
  "new_HyperParams lit ''activation'' = Some (StrV (activation HyperParams_default))"
  "new_HyperParams lit ''filters_base'' = Some (IntV (filters_base HyperParams_default))"
  by (simp_all add: new_HyperParams_def new_object_def HyperParams_fields_def
        HyperParams_default_def)

end
